theory Spec2Isabelle
  imports Main "HOL-Library.AList" "HOL-Library.Multiset" "HOL-Library.Product_Lexorder"
begin

section \<open>Common data\<close>

text \<open>
  A Python \<open>str\<close> is a sequence of Unicode code points, modelled as a list of naturals.
  \<open>py\<close> turns an ASCII literal of the theory into such a string.
\<close>

type_synonym pystr = "nat list"

definition py :: "string \<Rightarrow> pystr" where
  "py s = map of_char s"

text \<open>
  Exceptions that the modelled code can meet. \<open>ServiceError\<close> stands for any exception
  raised by a call into the assistant service, \<open>WarehouseError\<close> for one raised by
  the warehouse cursor.
\<close>

datatype exn =
    ValueError
  | KeyError
  | TypeError
  | AttributeError
  | JSONDecodeError
  | OSError
  | ServiceError
  | WarehouseError

section \<open>run_task.py: the batch job\<close>

text \<open>
  The module body of \<open>run_task.py\<close>. Every call that leaves the module is an outcome
  supplied by the environment record; the job returns how it ended (normally, or with
  the uncaught exception) together with the trace of the calls it made.

  \<^item> \<open>fetch_books_call\<close>, \<open>ensure_assistant_call\<close>, \<open>unlink_call\<close> and
    \<open>get_active_users_call\<close> are the calls of \<open>ds.fetch_all_production_books\<close>,
    \<open>oa.ensure_assistant\<close>, \<open>os.unlink\<close> and \<open>ds.get_active_users(14, 5)\<close>: each
    either raises or returns.
  \<^item> \<open>cli_arg\<close> is \<open>sys.argv[1]\<close> when \<open>len(sys.argv) > 1\<close>, and
    \<open>int_builtin\<close> is Python's \<open>int\<close> on strings.
  \<^item> \<open>per_user i u\<close> is the outcome of the body of the \<open>for\<close> loop (lines 21 to 39)
    in iteration \<open>i\<close> for user \<open>u\<close>: \<open>None\<close> when it completes, \<open>Some e\<close> when it
    raises \<open>e\<close>.
\<close>

record ('u, 'a, 'f) job_env =
  fetch_books_call :: "exn + 'f"
  ensure_assistant_call :: "'f \<Rightarrow> exn + 'a"
  unlink_call :: "'f \<Rightarrow> exn option"
  cli_arg :: "pystr option"
  int_builtin :: "pystr \<Rightarrow> exn + int"
  get_active_users_call :: "exn + 'u list"
  per_user :: "nat \<Rightarrow> 'u \<Rightarrow> exn option"

datatype ('u, 'a, 'f) event =
    FetchBooks
  | EnsureAssistant 'f
  | Unlink 'f
  | GetActiveUsers
  | ProcessUser 'u
  | DeleteAssistant 'a

text \<open>
  Lines 20 to 43: the loop over the active users with the counter
  \<open>number_of_users\<close>. The result is the exception that left the loop, if any, and the
  users whose processing was started, in order.
\<close>

fun user_loop ::
  "(nat \<Rightarrow> 'u \<Rightarrow> exn option) \<Rightarrow> nat \<Rightarrow> int \<Rightarrow> 'u list \<Rightarrow> exn option \<times> 'u list" where
  "user_loop body i number_of_users [] = (None, [])"
| "user_loop body i number_of_users (user_id # users) =
     (case body i user_id of
        Some e \<Rightarrow> (Some e, [user_id])
      | None \<Rightarrow>
          if number_of_users = 1 then (None, [user_id])
          else (case user_loop body (Suc i) (number_of_users - 1) users of
                  (r, done) \<Rightarrow> (r, user_id # done)))"

text \<open>Lines 18 to 48: the \<open>try\<close> block and its \<open>finally\<close> clause.\<close>

definition guarded_part ::
  "('u, 'a, 'f) job_env \<Rightarrow> 'a \<Rightarrow> int \<Rightarrow> exn option \<times> ('u, 'a, 'f) event list" where
  "guarded_part env assistant_id number_of_users =
     (case get_active_users_call env of
        Inl e \<Rightarrow> (Some e, [GetActiveUsers, DeleteAssistant assistant_id])
      | Inr users \<Rightarrow>
          (case user_loop (per_user env) 0 number_of_users users of
             (r, done) \<Rightarrow>
               (r, GetActiveUsers # map ProcessUser done @ [DeleteAssistant assistant_id])))"

text \<open>Lines 12 to 15: the optional command-line argument.\<close>

definition number_of_users_arg :: "('u, 'a, 'f) job_env \<Rightarrow> exn + int" where
  "number_of_users_arg env =
     (case cli_arg env of None \<Rightarrow> Inr 1 | Some s \<Rightarrow> int_builtin env s)"

definition run_task ::
  "('u, 'a, 'f) job_env \<Rightarrow> exn option \<times> ('u, 'a, 'f) event list" where
  "run_task env =
     (case fetch_books_call env of
        Inl e \<Rightarrow> (Some e, [FetchBooks])
      | Inr library_data_file \<Rightarrow>
          (case ensure_assistant_call env library_data_file of
             Inl e \<Rightarrow> (Some e, [FetchBooks, EnsureAssistant library_data_file])
           | Inr assistant_id \<Rightarrow>
               (case unlink_call env library_data_file of
                  Some e \<Rightarrow>
                    (Some e, [FetchBooks, EnsureAssistant library_data_file,
                              Unlink library_data_file])
                | None \<Rightarrow>
                    (case number_of_users_arg env of
                       Inl e \<Rightarrow>
                         (Some e, [FetchBooks, EnsureAssistant library_data_file,
                                   Unlink library_data_file])
                     | Inr number_of_users \<Rightarrow>
                         (case guarded_part env assistant_id number_of_users of
                            (r, t) \<Rightarrow>
                              (r, [FetchBooks, EnsureAssistant library_data_file,
                                   Unlink library_data_file] @ t))))))"

text \<open>What the trace says: the users processed and the teardown calls.\<close>

fun is_teardown :: "('u, 'a, 'f) event \<Rightarrow> bool" where
  "is_teardown (DeleteAssistant a) = True"
| "is_teardown _ = False"

fun is_process :: "('u, 'a, 'f) event \<Rightarrow> bool" where
  "is_process (ProcessUser u) = True"
| "is_process _ = False"


definition users_processed :: "('u, 'a, 'f) event list \<Rightarrow> nat" where
  "users_processed t = length (filter is_process t)"

text \<open>
  Python's \<open>int\<close> on the plain decimal literals \<open>[+-]?[0-9]+\<close>. It instantiates
  \<open>int_builtin\<close> in the concrete runs below, whose arguments are such literals or
  contain a letter; what \<open>int\<close> accepts beyond them (surrounding white space,
  underscores between digits, digits outside ASCII) is not in this table.
\<close>

definition is_ascii_digit :: "nat \<Rightarrow> bool" where
  "is_ascii_digit c = (48 \<le> c \<and> c \<le> 57)"

definition decimal_value :: "pystr \<Rightarrow> int" where
  "decimal_value ds = foldl (\<lambda>acc c. 10 * acc + int (c - 48)) 0 ds"

definition int_plain :: "pystr \<Rightarrow> exn + int" where
  "int_plain s =
     (let (neg, ds) = (case s of
                         c # r \<Rightarrow> if c = 45 then (True, r) else if c = 43 then (False, r)
                                  else (False, s)
                       | [] \<Rightarrow> (False, s))
      in if ds \<noteq> [] \<and> list_all is_ascii_digit ds
         then Inr (if neg then - decimal_value ds else decimal_value ds)
         else Inl ValueError)"

text \<open>Two concrete jobs: the argument \<open>0\<close> with two active users, and an argument that
  is no number.\<close>

definition quiet_env :: "pystr option \<Rightarrow> (nat, nat, nat) job_env" where
  "quiet_env arg =
     \<lparr> fetch_books_call = Inr 7,
       ensure_assistant_call = (\<lambda>f. Inr 1),
       unlink_call = (\<lambda>f. None),
       cli_arg = arg,
       int_builtin = int_plain,
       get_active_users_call = Inr [10, 20],
       per_user = (\<lambda>i u. None) \<rparr>"


section \<open>libs/openai_assistant.py: clean_text\<close>

text \<open>
  \<open>clean_text\<close> is \<open>re.sub(r"[U+3010]\d+:\d+[U+2020]source[U+3011]", "", text).strip()\<close>:
  the pattern is the left black lenticular bracket (code point 12304), decimal digits, a
  colon, decimal digits, the dagger (8224), the word \<open>source\<close> and the right black
  lenticular bracket (12305).

  In a \<open>str\<close> pattern \<open>\d\<close> is any Unicode decimal digit (category Nd), and
  \<open>strip()\<close> removes the characters for which \<open>str.isspace\<close> holds. Both tables are
  those of Unicode 14.0 (CPython 3.11), as ranges of code points.
\<close>

definition unicode_decimal_ranges :: "(nat \<times> nat) list" where
  "unicode_decimal_ranges =
     [(48, 57), (1632, 1641), (1776, 1785), (1984, 1993), (2406, 2415), (2534, 2543),
      (2662, 2671), (2790, 2799), (2918, 2927), (3046, 3055), (3174, 3183), (3302, 3311),
      (3430, 3439), (3558, 3567), (3664, 3673), (3792, 3801), (3872, 3881), (4160, 4169),
      (4240, 4249), (6112, 6121), (6160, 6169), (6470, 6479), (6608, 6617), (6784, 6793),
      (6800, 6809), (6992, 7001), (7088, 7097), (7232, 7241), (7248, 7257),
      (42528, 42537), (43216, 43225), (43264, 43273), (43472, 43481), (43504, 43513),
      (43600, 43609), (44016, 44025), (65296, 65305), (66720, 66729), (68912, 68921),
      (69734, 69743), (69872, 69881), (69942, 69951), (70096, 70105), (70384, 70393),
      (70736, 70745), (70864, 70873), (71248, 71257), (71360, 71369), (71472, 71481),
      (71904, 71913), (72016, 72025), (72784, 72793), (73040, 73049), (73120, 73129),
      (92768, 92777), (92864, 92873), (93008, 93017), (120782, 120831),
      (123200, 123209), (123632, 123641), (125264, 125273), (130032, 130041)]"

definition unicode_space_ranges :: "(nat \<times> nat) list" where
  "unicode_space_ranges =
     [(9, 13), (28, 32), (133, 133), (160, 160), (5760, 5760), (8192, 8202),
      (8232, 8233), (8239, 8239), (8287, 8287), (12288, 12288)]"

definition in_ranges :: "(nat \<times> nat) list \<Rightarrow> nat \<Rightarrow> bool" where
  "in_ranges rs c = list_ex (\<lambda>(lo, hi). lo \<le> c \<and> c \<le> hi) rs"

definition isdecimal :: "nat \<Rightarrow> bool" where
  "isdecimal c = in_ranges unicode_decimal_ranges c"

definition isspace :: "nat \<Rightarrow> bool" where
  "isspace c = in_ranges unicode_space_ranges c"

text \<open>The end of the pattern: dagger, \<open>source\<close>, closing bracket (8 code points).\<close>

definition citation_tail :: pystr where
  "citation_tail = 8224 # py ''source'' @ [12305]"

text \<open>
  One match of the pattern at the start of \<open>s\<close>, giving the text after the match. A
  digit run is followed by a colon or by the dagger, neither of them a digit, so the
  greedy \<open>\d+\<close> takes the whole run and backtracking to a shorter one cannot succeed.
\<close>

definition match_citation :: "pystr \<Rightarrow> pystr option" where
  "match_citation s =
     (case s of
        [] \<Rightarrow> None
      | c # r \<Rightarrow>
          if c \<noteq> 12304 \<or> takeWhile isdecimal r = [] then None
          else (case dropWhile isdecimal r of
                  [] \<Rightarrow> None
                | c1 # r1 \<Rightarrow>
                    if c1 \<noteq> 58 \<or> takeWhile isdecimal r1 = [] then None
                    else if take 8 (dropWhile isdecimal r1) = citation_tail
                         then Some (drop 8 (dropWhile isdecimal r1))
                         else None))"

lemma match_citation_shorter:
  "match_citation s = Some rest \<Longrightarrow> length rest < length s"
proof -
  assume m: "match_citation s = Some rest"
  then obtain c r where s: "s = c # r"
    by (cases s) (simp_all add: match_citation_def)
  from m s obtain c1 r1 where d: "dropWhile isdecimal r = c1 # r1"
    and rest: "rest = drop 8 (dropWhile isdecimal r1)"
    by (auto simp: match_citation_def split: if_splits list.splits)
  have "length rest \<le> length r1"
    using length_dropWhile_le [of isdecimal r1] by (simp add: rest)
  also have "\<dots> < length (dropWhile isdecimal r)" by (simp add: d)
  also have "\<dots> \<le> length r" by (rule length_dropWhile_le)
  finally show ?thesis by (simp add: s)
qed

text \<open>
  \<open>re.sub\<close> with the empty replacement: scan from the left, drop each match and go
  on after it, keep every other character.
\<close>

function re_sub_citation :: "pystr \<Rightarrow> pystr" where
  "re_sub_citation [] = []"
| "re_sub_citation (c # r) =
     (case match_citation (c # r) of
        Some rest \<Rightarrow> re_sub_citation rest
      | None \<Rightarrow> c # re_sub_citation r)"
  by pat_completeness auto
termination
  by (relation "measure length") (auto dest: match_citation_shorter)

definition strip :: "pystr \<Rightarrow> pystr" where
  "strip s = rev (dropWhile isspace (rev (dropWhile isspace s)))"

definition clean_text :: "pystr \<Rightarrow> pystr" where
  "clean_text text = strip (re_sub_citation text)"

text \<open>The text contains a match of the pattern (what \<open>re.search\<close> would find).\<close>

fun has_citation :: "pystr \<Rightarrow> bool" where
  "has_citation [] = False"
| "has_citation (c # r) =
     (case match_citation (c # r) of Some rest \<Rightarrow> True | None \<Rightarrow> has_citation r)"

text \<open>
  The input of the spec's example, and an input in which a citation marker sits inside
  the digits of another one.
\<close>

definition great_book :: pystr where
  "great_book = py ''Great book '' @ [12304] @ py ''3:1'' @ citation_tail @ py '' for kids''"

definition nested_citation :: pystr where
  "nested_citation =
     [12304] @ py ''1:'' @ [12304] @ py ''2:3'' @ citation_tail @ py ''4'' @ citation_tail"

section \<open>libs/openai_assistant.py: the two assistant runs\<close>

text \<open>
  What \<open>json.loads\<close> returns. A Python \<open>dict\<close> is an association list in insertion
  order, read with \<open>map_of\<close> and written with \<open>AList.update\<close> (an existing key keeps
  its place, a new one goes to the end). Numbers are not inspected by the code and stay
  abstract.
\<close>

datatype 'n json =
    JNull
  | JBool bool
  | JNum 'n
  | JStr pystr
  | JArr "'n json list"
  | JObj "(pystr \<times> 'n json) list"

text \<open>
  A pending tool call: \<open>function\<close> is \<open>None\<close> when the object has no such attribute, and
  so are \<open>name\<close> and \<open>arguments\<close> of the function, which the code reads with
  \<open>getattr\<close> and a default.
\<close>

record tool_function =
  fn_name :: "pystr option"
  fn_arguments :: "pystr option"

record tool_call =
  call_id :: pystr
  call_function :: "tool_function option"

text \<open>
  One answer of \<open>runs.retrieve\<close>: the status, and the pending tool calls when
  \<open>required_action\<close> has the attribute \<open>submit_tool_outputs\<close>.
\<close>

record run_status =
  status :: pystr
  required_action :: "tool_call list option"

text \<open>
  The assistant service and the JSON library as seen by one call of
  \<open>analyze_user_interest\<close> or \<open>search_books_by_interest\<close>:
  \<^item> \<open>open_run\<close>: creating the thread, rendering the prompt, posting the message and
    creating the run; \<open>Some e\<close> when one of them raises \<open>e\<close>;
  \<^item> \<open>retrieve i\<close>: the \<open>i\<close>-th call of \<open>runs.retrieve\<close> in the polling loop;
  \<^item> \<open>submit_tool_outputs i id out\<close>: the call made during the \<open>i\<close>-th poll for
    the tool call \<open>id\<close> with the dictionary \<open>out\<close> as output;
  \<^item> \<open>json_loads\<close>: \<open>json.loads\<close>.
\<close>

record 'n service =
  open_run :: "exn option"
  retrieve :: "nat \<Rightarrow> exn + run_status"
  submit_tool_outputs :: "nat \<Rightarrow> pystr \<Rightarrow> 'n json \<Rightarrow> exn option"
  json_loads :: "pystr \<Rightarrow> exn + 'n json"

text \<open>\<open>d.get(key, default)\<close>: only a dictionary has the method.\<close>

fun dict_get :: "'n json \<Rightarrow> pystr \<Rightarrow> 'n json \<Rightarrow> exn + 'n json" where
  "dict_get (JObj kvs) key dflt =
     Inr (case map_of kvs key of Some v \<Rightarrow> v | None \<Rightarrow> dflt)"
| "dict_get _ key dflt = Inl AttributeError"

text \<open>
  \<open>book[key] = clean_text(book[key])\<close>: the subscript raises \<open>KeyError\<close> on a
  dictionary without the key and \<open>TypeError\<close> on a value that is no dictionary (a
  string key on a list, a string, a number, \<open>None\<close>); \<open>re.sub\<close> raises \<open>TypeError\<close>
  on a value that is no string.
\<close>

fun clean_field :: "pystr \<Rightarrow> 'n json \<Rightarrow> exn + 'n json" where
  "clean_field key (JObj kvs) =
     (case map_of kvs key of
        None \<Rightarrow> Inl KeyError
      | Some (JStr t) \<Rightarrow> Inr (JObj (AList.update key (JStr (clean_text t)) kvs))
      | Some _ \<Rightarrow> Inl TypeError)"
| "clean_field key _ = Inl TypeError"

text \<open>Lines 215 and 216, for one element of the list.\<close>

definition clean_book :: "'n json \<Rightarrow> exn + 'n json" where
  "clean_book book =
     (case clean_field (py ''reason'') book of
        Inl e \<Rightarrow> Inl e
      | Inr book1 \<Rightarrow> clean_field (py ''book_title'') book1)"

fun clean_books :: "'n json list \<Rightarrow> exn + 'n json list" where
  "clean_books [] = Inr []"
| "clean_books (book # books) =
     (case clean_book book of
        Inl e \<Rightarrow> Inl e
      | Inr book' \<Rightarrow>
          (case clean_books books of
             Inl e \<Rightarrow> Inl e
           | Inr books' \<Rightarrow> Inr (book' # books')))"

text \<open>
  Lines 214 to 216: \<open>for book in recommended_books\<close>. A list is walked through; an
  empty dictionary or string gives no iteration and stays as it is; a dictionary or
  string that is not empty yields a string first, whose subscript raises; anything
  else cannot be iterated.
\<close>

fun clean_recommended :: "'n json \<Rightarrow> exn + 'n json" where
  "clean_recommended (JArr books) =
     (case clean_books books of Inl e \<Rightarrow> Inl e | Inr books' \<Rightarrow> Inr (JArr books'))"
| "clean_recommended (JObj kvs) = (if kvs = [] then Inr (JObj []) else Inl TypeError)"
| "clean_recommended (JStr s) = (if s = [] then Inr (JStr []) else Inl TypeError)"
| "clean_recommended _ = Inl TypeError"

text \<open>The name and the parsed arguments of a tool call (lines 142, 143 and 207, 208).\<close>

definition function_name :: "tool_function \<Rightarrow> pystr" where
  "function_name f = (case fn_name f of Some n \<Rightarrow> n | None \<Rightarrow> [])"

definition function_args :: "'n service \<Rightarrow> tool_function \<Rightarrow> exn + 'n json" where
  "function_args env f =
     json_loads env (case fn_arguments f of Some a \<Rightarrow> a | None \<Rightarrow> py ''{}'')"

text \<open>
  Lines 140 to 162: the loop over the tool calls of one poll in
  \<open>analyze_user_interest\<close>. The \<open>continue\<close> of line 162 goes on with the next tool
  call.
\<close>

fun interest_tool_calls ::
  "'n service \<Rightarrow> nat \<Rightarrow> tool_call list \<Rightarrow> 'n json \<Rightarrow> exn + 'n json" where
  "interest_tool_calls env i [] recommendation_summary = Inr recommendation_summary"
| "interest_tool_calls env i (tool_call # tool_calls) recommendation_summary =
     (case call_function tool_call of
        None \<Rightarrow> interest_tool_calls env i tool_calls recommendation_summary
      | Some f \<Rightarrow>
          (case function_args env f of
             Inl e \<Rightarrow> Inl e
           | Inr args \<Rightarrow>
               if function_name f = py ''recommend_books'' then
                 (case dict_get args (py ''recommendation_summary'') (JStr []) of
                    Inl e \<Rightarrow> Inl e
                  | Inr summary \<Rightarrow>
                      (case submit_tool_outputs env i (call_id tool_call)
                              (JObj [(py ''recommendation_summary'', summary)]) of
                         Some e \<Rightarrow> Inl e
                       | None \<Rightarrow> interest_tool_calls env i tool_calls summary))
               else interest_tool_calls env i tool_calls recommendation_summary))"

text \<open>Lines 205 to 232: the same loop in \<open>search_books_by_interest\<close>.\<close>

fun search_tool_calls ::
  "'n service \<Rightarrow> nat \<Rightarrow> tool_call list \<Rightarrow> 'n json \<Rightarrow> exn + 'n json" where
  "search_tool_calls env i [] recommended_books = Inr recommended_books"
| "search_tool_calls env i (tool_call # tool_calls) recommended_books =
     (case call_function tool_call of
        None \<Rightarrow> search_tool_calls env i tool_calls recommended_books
      | Some f \<Rightarrow>
          (case function_args env f of
             Inl e \<Rightarrow> Inl e
           | Inr args \<Rightarrow>
               if function_name f = py ''recommend_books'' then
                 (case dict_get args (py ''recommended_books'') (JArr []) of
                    Inl e \<Rightarrow> Inl e
                  | Inr supplied \<Rightarrow>
                      (case clean_recommended supplied of
                         Inl e \<Rightarrow> Inl e
                       | Inr books \<Rightarrow>
                           (case submit_tool_outputs env i (call_id tool_call)
                                   (JObj [(py ''recommended_books'', books)]) of
                              Some e \<Rightarrow> Inl e
                            | None \<Rightarrow> search_tool_calls env i tool_calls books)))
               else search_tool_calls env i tool_calls recommended_books))"

text \<open>
  The body of the \<open>while\<close> loop after the test for a final status (lines 136 to 163
  and 201 to 233), with the loop over the tool calls as parameter.
\<close>

definition poll_step ::
  "(nat \<Rightarrow> tool_call list \<Rightarrow> 'n json \<Rightarrow> exn + 'n json) \<Rightarrow>
   nat \<Rightarrow> run_status \<Rightarrow> 'n json \<Rightarrow> exn + 'n json" where
  "poll_step on_tool_calls i run_status acc =
     (if status run_status = py ''requires_action'' then
        (case required_action run_status of
           None \<Rightarrow> Inr acc
         | Some tool_calls \<Rightarrow> on_tool_calls i tool_calls acc)
      else Inr acc)"

definition final_status :: "pystr \<Rightarrow> bool" where
  "final_status s = (s \<in> set [py ''completed'', py ''failed'', py ''cancelled''])"

text \<open>
  The \<open>while True\<close> loops of lines 129 to 163 and 194 to 233, from the \<open>i\<close>-th poll on.
  The loop has no bound: it returns the final status it observes together with the
  value collected from the tool calls, or the exception that leaves it, and has no
  result (\<open>None\<close>) when the service never reports a final status.
\<close>

partial_function (option) poll_loop ::
  "(nat \<Rightarrow> tool_call list \<Rightarrow> 'n json \<Rightarrow> exn + 'n json) \<Rightarrow> 'n service \<Rightarrow>
   nat \<Rightarrow> 'n json \<Rightarrow> (exn + pystr \<times> 'n json) option" where
  "poll_loop on_tool_calls env i acc =
     (case retrieve env i of
        Inl e \<Rightarrow> Some (Inl e)
      | Inr run_status \<Rightarrow>
          if final_status (status run_status) then Some (Inr (status run_status, acc))
          else (case poll_step on_tool_calls i run_status acc of
                  Inl e \<Rightarrow> Some (Inl e)
                | Inr acc' \<Rightarrow> poll_loop on_tool_calls env (Suc i) acc'))"

definition analyze_user_interest :: "'n service \<Rightarrow> (exn + 'n json) option" where
  "analyze_user_interest env =
     (case open_run env of
        Some e \<Rightarrow> Some (Inl e)
      | None \<Rightarrow>
          (case poll_loop (interest_tool_calls env) env 0 (JStr []) of
             None \<Rightarrow> None
           | Some (Inl e) \<Rightarrow> Some (Inl e)
           | Some (Inr (final, recommendation_summary)) \<Rightarrow>
               if final \<noteq> py ''completed'' then Some (Inr (JStr []))
               else Some (Inr recommendation_summary)))"

definition search_books_by_interest :: "'n service \<Rightarrow> (exn + 'n json) option" where
  "search_books_by_interest env =
     (case open_run env of
        Some e \<Rightarrow> Some (Inl e)
      | None \<Rightarrow>
          (case poll_loop (search_tool_calls env) env 0 (JArr []) of
             None \<Rightarrow> None
           | Some (Inl e) \<Rightarrow> Some (Inl e)
           | Some (Inr (final, recommended_books)) \<Rightarrow>
               if final \<noteq> py ''completed'' then Some (Inr (JArr []))
               else Some (Inr recommended_books)))"

text \<open>
  The first \<open>n\<close> polls from the \<open>i\<close>-th on neither end the loop nor raise; the result is
  the value collected after them.
\<close>

fun polls_through ::
  "(nat \<Rightarrow> tool_call list \<Rightarrow> 'n json \<Rightarrow> exn + 'n json) \<Rightarrow> 'n service \<Rightarrow>
   nat \<Rightarrow> nat \<Rightarrow> 'n json \<Rightarrow> 'n json option" where
  "polls_through on_tool_calls env i 0 acc = Some acc"
| "polls_through on_tool_calls env i (Suc n) acc =
     (case retrieve env i of
        Inl e \<Rightarrow> None
      | Inr run_status \<Rightarrow>
          if final_status (status run_status) then None
          else (case poll_step on_tool_calls i run_status acc of
                  Inl e \<Rightarrow> None
                | Inr acc' \<Rightarrow> polls_through on_tool_calls env (Suc i) n acc'))"

text \<open>
  What the specification of the returned recommendations speaks of: the list that a
  \<open>recommend_books\<close> tool call of the run supplies (the value of
  \<open>recommended_books\<close> in its parsed arguments, or the default \<open>[]\<close>), and the
  relation between a supplied book and the returned one.
\<close>

definition supplies :: "'n service \<Rightarrow> 'n json \<Rightarrow> bool" where
  "supplies env raw =
     (\<exists>i rs tool_calls tool_call f args.
        retrieve env i = Inr rs \<and> status rs = py ''requires_action'' \<and>
        required_action rs = Some tool_calls \<and> tool_call \<in> set tool_calls \<and>
        call_function tool_call = Some f \<and> function_name f = py ''recommend_books'' \<and>
        function_args env f = Inr args \<and>
        dict_get args (py ''recommended_books'') (JArr []) = Inr raw)"

definition book_rewritten :: "'n json \<Rightarrow> 'n json \<Rightarrow> bool" where
  "book_rewritten book book' =
     (\<exists>kvs kvs' r t.
        book = JObj kvs \<and> book' = JObj kvs' \<and> map fst kvs' = map fst kvs \<and>
        map_of kvs' (py ''book_id'') = map_of kvs (py ''book_id'') \<and>
        (\<forall>k. k \<noteq> py ''reason'' \<and> k \<noteq> py ''book_title'' \<longrightarrow> map_of kvs' k = map_of kvs k) \<and>
        map_of kvs (py ''reason'') = Some (JStr r) \<and>
        map_of kvs' (py ''reason'') = Some (JStr (clean_text r)) \<and>
        map_of kvs (py ''book_title'') = Some (JStr t) \<and>
        map_of kvs' (py ''book_title'') = Some (JStr (clean_text t)))"

definition books_rewritten :: "'n json \<Rightarrow> 'n json \<Rightarrow> bool" where
  "books_rewritten raw returned =
     (case raw of
        JArr books \<Rightarrow>
          (\<exists>books'. returned = JArr books' \<and> length books' = length books \<and>
             (\<forall>j < length books. book_rewritten (books ! j) (books' ! j)))
      | _ \<Rightarrow> returned = raw)"

text \<open>
  A concrete run: the first poll asks for the output of one \<open>recommend_books\<close> tool
  call, whose arguments are the JSON text \<open>sample_arguments\<close>; every later poll reports
  the status \<open>final\<close>. \<open>json_loads\<close> is the table of \<open>json.loads\<close> on that one text.
\<close>

definition quoted :: "string \<Rightarrow> pystr" where
  "quoted s = 34 # py s @ [34]"

definition sample_title :: pystr where
  "sample_title = py ''Mars '' @ [12304] @ py ''3:1'' @ citation_tail"

definition sample_arguments :: pystr where
  "sample_arguments =
     py ''{'' @ quoted ''recommendation_summary'' @ py '': '' @ quoted ''likes space'' @
     py '', '' @ quoted ''recommended_books'' @ py '': [{'' @
     quoted ''book_id'' @ py '': '' @ quoted ''b1'' @ py '', '' @
     quoted ''book_title'' @ py '': '' @ (34 # sample_title @ [34]) @ py '', '' @
     quoted ''reason'' @ py '': '' @ quoted ''about space'' @ py ''}]}''"

definition sample_parsed :: "nat json" where
  "sample_parsed =
     JObj [(py ''recommendation_summary'', JStr (py ''likes space'')),
           (py ''recommended_books'',
            JArr [JObj [(py ''book_id'', JStr (py ''b1'')),
                        (py ''book_title'', JStr sample_title),
                        (py ''reason'', JStr (py ''about space''))]])]"

definition sample_cleaned :: "nat json" where
  "sample_cleaned =
     JArr [JObj [(py ''book_id'', JStr (py ''b1'')),
                 (py ''book_title'', JStr (py ''Mars'')),
                 (py ''reason'', JStr (py ''about space''))]]"

definition sample_service :: "pystr \<Rightarrow> nat service" where
  "sample_service final =
     \<lparr> open_run = None,
       retrieve = (\<lambda>i. if i = 0
          then Inr \<lparr> status = py ''requires_action'',
                     required_action = Some
                       [\<lparr> call_id = py ''call_1'',
                          call_function = Some
                            \<lparr> fn_name = Some (py ''recommend_books''),
                              fn_arguments = Some sample_arguments \<rparr> \<rparr>] \<rparr>
          else Inr \<lparr> status = final, required_action = None \<rparr>),
       submit_tool_outputs = (\<lambda>i tool_call_id out. None),
       json_loads = (\<lambda>s. if s = sample_arguments then Inr sample_parsed
                           else Inl JSONDecodeError) \<rparr>"

section \<open>libs/openai_assistant.py: delete_assistant\<close>

text \<open>
  The calls that \<open>delete_assistant\<close> makes to the service and the lines it prints when
  a call fails, in the order in which they happen.
\<close>

datatype ('a, 'v, 'f) teardown_step =
    AssistantsRetrieve 'a
  | AssistantsDelete 'a
  | FilesList 'v
  | FilesDelete 'v 'f
  | VectorStoresDelete 'v
  | PrintStoreFailed 'v exn
  | PrintError 'a exn







text \<open>Reading a trace: the stores whose files were listed, and the position of a step.\<close>

fun listed_stores :: "('a, 'v, 'f) teardown_step list \<Rightarrow> 'v list" where
  "listed_stores [] = []"
| "listed_stores (FilesList v # t) = v # listed_stores t"
| "listed_stores (s # t) = listed_stores t"

fun printed_failures :: "('a, 'v, 'f) teardown_step list \<Rightarrow> ('v \<times> exn) list" where
  "printed_failures [] = []"
| "printed_failures (PrintStoreFailed v e # t) = (v, e) # printed_failures t"
| "printed_failures (s # t) = printed_failures t"








section \<open>libs/data_source.py: the warehouse queries\<close>

text \<open>
  The warehouse, as far as the four queries read it. A column value is \<open>None\<close> for SQL
  \<open>NULL\<close>; text columns hold strings and time stamps are integers (ticks of the
  warehouse clock).
  \<^item> \<open>reading_sessions\<close> is \<open>STUDENTS_READING_SESSIONS\<close> and \<open>books_list\<close> is
    \<open>BOOKS_LIST\<close>, with the columns the queries name.
  \<^item> \<open>book_info_join\<close> is the five-table inner join of \<open>get_book_info\<close> restricted to
    the environment \<open>production\<close>, and \<open>production_join\<close> the four-table join of
    \<open>fetch_all_production_books\<close>; the queries select their columns without naming
    the table each belongs to, so the joins are given as they are.
  \<^item> \<open>current_timestamp\<close> and \<open>dateadd_day\<close> are \<open>CURRENT_TIMESTAMP()\<close> and
    \<open>DATEADD(DAY, n, t)\<close>.
  \<^item> \<open>execute_raises\<close> is the exception raised by connecting or by
    \<open>cursor.execute\<close>, if any.
\<close>

record reading_session =
  s_USER_ID :: "pystr option"
  s_EVENT_TIME :: "int option"
  s_BOOK_PERMANENT_ID :: "pystr option"

record book_row =
  b_TITLE :: "pystr option"
  b_AUTHOR :: "pystr option"
  b_ISBN :: "pystr option"
  b_LANGUAGE_CODE :: "pystr option"
  b_GENRE :: "pystr option"
  b_PUBLISHER :: "pystr option"
  b_WORD_COUNT :: "int option"
  b_DEFAULT_CATEGORIES :: "pystr option"
  b_PERMANENT_ID :: "pystr option"

record book_info_row =
  i_PERMANENT_ID :: "pystr option"
  i_DESCRIPTION :: "pystr option"
  i_EXTENDED_BOOK_INFO :: "pystr option"

record production_row =
  p_PERMANENT_ID :: "pystr option"
  p_TITLE :: "pystr option"
  p_DESCRIPTION :: "pystr option"

record warehouse =
  execute_raises :: "exn option"
  reading_sessions :: "reading_session list"
  books_list :: "book_row list"
  book_info_join :: "book_info_row list"
  production_join :: "production_row list"
  current_timestamp :: int
  dateadd_day :: "int \<Rightarrow> int \<Rightarrow> int"

text \<open>
  The queries put an identifier between single quotes by string interpolation. The
  text reads as the comparison with that identifier when the identifier holds no
  single quote and no backslash (the spec trusts identifiers); the model is about such
  identifiers.
\<close>

definition sql_safe :: "pystr \<Rightarrow> bool" where
  "sql_safe s = (39 \<notin> set s \<and> 92 \<notin> set s)"

text \<open>
  \<open>ORDER BY col DESC\<close>: the greatest value first, \<open>NULL\<close> before every value (the
  warehouse's default for a descending order). The order among equal values is not
  fixed by SQL; the model takes the one of a stable sort.
\<close>

definition desc_key :: "int option \<Rightarrow> nat \<times> int" where
  "desc_key t = (case t of None \<Rightarrow> (1, 0) | Some x \<Rightarrow> (0, x))"

definition order_by_desc :: "('r \<Rightarrow> 'k::linorder) \<Rightarrow> 'r list \<Rightarrow> 'r list" where
  "order_by_desc key rows = rev (sort_key key rows)"

subsection \<open>get_active_users\<close>








subsection \<open>get_book_info\<close>

text \<open>
  Lines 111 to 122: \<open>SELECT DISTINCT\<close> of the three columns of the join rows whose
  \<open>PERMANENT_ID\<close> is the identifier. Which of several distinct rows comes first is
  not fixed by SQL; the model keeps the order of the join.
\<close>

definition book_info_rows :: "warehouse \<Rightarrow> pystr \<Rightarrow> book_info_row list" where
  "book_info_rows db book_id =
     remdups (filter (\<lambda>r. i_PERMANENT_ID r = Some book_id) (book_info_join db))"

text \<open>Lines 108 to 127: the empty string, or column 1 of the first row.\<close>

definition get_book_info :: "warehouse \<Rightarrow> pystr \<Rightarrow> exn + pystr option" where
  "get_book_info db book_id =
     (case execute_raises db of
        Some e \<Rightarrow> Inl e
      | None \<Rightarrow>
          (case book_info_rows db book_id of
             [] \<Rightarrow> Inr (Some [])
           | row # rows \<Rightarrow> Inr (i_DESCRIPTION row)))"

subsection \<open>get_user_read_books\<close>

text \<open>
  Lines 60 to 82, the common table expression \<open>RankedBooks\<close>: the inner join of the
  sessions of the user with the books on the book identifier (a \<open>NULL\<close> identifier
  joins nothing). A joined row is the pair of its session and its book.
\<close>

definition user_book_join ::
  "warehouse \<Rightarrow> pystr \<Rightarrow> (reading_session \<times> book_row) list" where
  "user_book_join db user_id =
     [(s, b). s \<leftarrow> reading_sessions db, b \<leftarrow> books_list db,
        s_BOOK_PERMANENT_ID s \<noteq> None \<and> s_BOOK_PERMANENT_ID s = b_PERMANENT_ID b \<and>
        s_USER_ID s = Some user_id]"

text \<open>
  \<open>ROW_NUMBER() OVER (PARTITION BY b.PERMANENT_ID ORDER BY s.EVENT_TIME DESC)\<close> with
  \<open>WHERE rn = 1\<close>: of each partition, the first row in descending order of the event
  time.
\<close>

definition first_of_partition ::
  "(reading_session \<times> book_row) list \<Rightarrow> pystr option \<Rightarrow> (reading_session \<times> book_row) list" where
  "first_of_partition joined p =
     take 1 (order_by_desc (desc_key \<circ> s_EVENT_TIME \<circ> fst)
               (filter (\<lambda>r. b_PERMANENT_ID (snd r) = p) joined))"

definition ranked_first ::
  "(reading_session \<times> book_row) list \<Rightarrow> (reading_session \<times> book_row) list" where
  "ranked_first joined =
     concat (map (first_of_partition joined)
               (remdups (map (b_PERMANENT_ID \<circ> snd) joined)))"

text \<open>Lines 83 to 85: \<open>ORDER BY EVENT_TIME DESC LIMIT n\<close>.\<close>

definition user_read_rows ::
  "warehouse \<Rightarrow> pystr \<Rightarrow> nat \<Rightarrow> (reading_session \<times> book_row) list" where
  "user_read_rows db user_id n =
     take n (order_by_desc (desc_key \<circ> s_EVENT_TIME \<circ> fst)
               (ranked_first (user_book_join db user_id)))"

text \<open>
  The dictionary built from one row (lines 93 to 104). \<open>json.loads\<close> is a parameter;
  on \<open>None\<close> it raises \<open>TypeError\<close>.
\<close>

record 'j read_book =
  event_time :: "int option"
  title :: "pystr option"
  author :: "pystr option"
  isbn :: "pystr option"
  language_code :: "pystr option"
  genre :: "pystr option"
  publisher :: "pystr option"
  word_count :: "int option"
  categories :: 'j
  book_id :: "pystr option"

definition row_to_book ::
  "(pystr \<Rightarrow> exn + 'j) \<Rightarrow> reading_session \<times> book_row \<Rightarrow> exn + 'j read_book" where
  "row_to_book loads row =
     (case (case b_DEFAULT_CATEGORIES (snd row) of
              None \<Rightarrow> Inl TypeError
            | Some text \<Rightarrow> loads text) of
        Inl e \<Rightarrow> Inl e
      | Inr cats \<Rightarrow>
          Inr \<lparr> event_time = s_EVENT_TIME (fst row),
                title = b_TITLE (snd row),
                author = b_AUTHOR (snd row),
                isbn = b_ISBN (snd row),
                language_code = b_LANGUAGE_CODE (snd row),
                genre = b_GENRE (snd row),
                publisher = b_PUBLISHER (snd row),
                word_count = b_WORD_COUNT (snd row),
                categories = cats,
                book_id = b_PERMANENT_ID (snd row) \<rparr>)"

text \<open>Lines 91 to 105: the loop over the rows; the first exception ends it.\<close>

fun rows_to_books ::
  "(pystr \<Rightarrow> exn + 'j) \<Rightarrow> (reading_session \<times> book_row) list \<Rightarrow> exn + 'j read_book list" where
  "rows_to_books loads [] = Inr []"
| "rows_to_books loads (row # rows) =
     (case row_to_book loads row of
        Inl e \<Rightarrow> Inl e
      | Inr book \<Rightarrow>
          (case rows_to_books loads rows of
             Inl e \<Rightarrow> Inl e
           | Inr books \<Rightarrow> Inr (book # books)))"

text \<open>Lines 56 to 106, with the parameter \<open>LIMIT\<close> (5 when it is not given).\<close>

definition get_user_read_books ::
  "warehouse \<Rightarrow> (pystr \<Rightarrow> exn + 'j) \<Rightarrow> pystr \<Rightarrow> nat \<Rightarrow> exn + 'j read_book list" where
  "get_user_read_books db loads user_id LIMIT =
     (case execute_raises db of
        Some e \<Rightarrow> Inl e
      | None \<Rightarrow> rows_to_books loads (user_read_rows db user_id LIMIT))"

text \<open>\<open>json.loads\<close> accepts the categories of the row.\<close>

definition categories_ok :: "(pystr \<Rightarrow> exn + 'j) \<Rightarrow> reading_session \<times> book_row \<Rightarrow> bool" where
  "categories_ok loads row =
     (case b_DEFAULT_CATEGORIES (snd row) of
        None \<Rightarrow> False
      | Some text \<Rightarrow> (case loads text of Inr cats \<Rightarrow> True | Inl e \<Rightarrow> False))"

subsection \<open>A small warehouse\<close>

text \<open>
  A day has 10 ticks and the current time stamp is 1000, so that the cutoff of 14 days
  is 860. User \<open>a\<close> has seven recent sessions over six books, user \<open>b\<close> five, user
  \<open>c\<close> four, and user \<open>d\<close> five sessions before the cutoff.
\<close>

definition sample_session :: "string \<Rightarrow> int \<times> string \<Rightarrow> reading_session" where
  "sample_session u tb =
     \<lparr> s_USER_ID = Some (py u), s_EVENT_TIME = Some (fst tb),
       s_BOOK_PERMANENT_ID = Some (py (snd tb)) \<rparr>"

definition sample_book :: "string \<Rightarrow> book_row" where
  "sample_book p =
     \<lparr> b_TITLE = Some (py ''T'' @ py p), b_AUTHOR = None, b_ISBN = None,
       b_LANGUAGE_CODE = Some (py ''en''), b_GENRE = None, b_PUBLISHER = None,
       b_WORD_COUNT = Some 100, b_DEFAULT_CATEGORIES = Some (py ''[]''),
       b_PERMANENT_ID = Some (py p) \<rparr>"

definition sample_db :: warehouse where
  "sample_db =
     \<lparr> execute_raises = None,
       reading_sessions =
         map (sample_session ''c'') [(900, ''1''), (901, ''1''), (902, ''1''), (903, ''1'')] @
         map (sample_session ''b'') [(910, ''1''), (920, ''2''), (930, ''1''), (940, ''2''), (950, ''1'')] @
         map (sample_session ''d'') [(800, ''1''), (801, ''1''), (802, ''1''), (803, ''1''), (804, ''1'')] @
         map (sample_session ''a'') [(930, ''6''), (990, ''1''), (970, ''1''), (980, ''2''),
                              (960, ''3''), (950, ''4''), (940, ''5'')],
       books_list = map sample_book [''1'', ''2'', ''3'', ''4'', ''5'', ''6''],
       book_info_join =
         [\<lparr> i_PERMANENT_ID = Some (py ''1''), i_DESCRIPTION = Some (py ''A long story''),
            i_EXTENDED_BOOK_INFO = None \<rparr>],
       production_join =
         [\<lparr> p_PERMANENT_ID = Some (py ''1''), p_TITLE = Some (py ''T1''),
            p_DESCRIPTION = Some (py ''A long story'') \<rparr>],
       current_timestamp = 1000,
       dateadd_day = (\<lambda>n t. t + 10 * n) \<rparr>"

definition sample_loads :: "pystr \<Rightarrow> exn + pystr list" where
  "sample_loads text = (if text = py ''[]'' then Inr [] else Inl JSONDecodeError)"

section \<open>libs/data_source.py: fetch_all_production_books\<close>

text \<open>
  \<open>json.dumps\<close> with its defaults on a string (\<open>ensure_ascii\<close>): the quote, the
  backslash and the five control characters with a short form are escaped by a
  backslash and a letter, every other character outside the printable ASCII range
  by \<open>\uXXXX\<close> in lower-case hexadecimal, a character beyond the basic plane as a
  surrogate pair.
\<close>

definition hex_digit :: "nat \<Rightarrow> nat" where
  "hex_digit d = (if d < 10 then 48 + d else 87 + d)"

definition u_escape :: "nat \<Rightarrow> pystr" where
  "u_escape n =
     [92, 117, hex_digit (n div 4096 mod 16), hex_digit (n div 256 mod 16),
      hex_digit (n div 16 mod 16), hex_digit (n mod 16)]"

definition escape_char :: "nat \<Rightarrow> pystr" where
  "escape_char c =
     (if c = 34 then [92, 34]
      else if c = 92 then [92, 92]
      else if c = 10 then [92, 110]
      else if c = 13 then [92, 114]
      else if c = 9 then [92, 116]
      else if c = 12 then [92, 102]
      else if c = 8 then [92, 98]
      else if 32 \<le> c \<and> c \<le> 126 then [c]
      else if c < 65536 then u_escape c
      else u_escape (55296 + (c - 65536) div 1024 mod 1024) @
           u_escape (56320 + (c - 65536) mod 1024))"

definition encode_string :: "pystr \<Rightarrow> pystr" where
  "encode_string s = 34 # concat (map escape_char s) @ [34]"

text \<open>A column value: \<open>None\<close> becomes \<open>null\<close>.\<close>

definition dumps_value :: "pystr option \<Rightarrow> pystr" where
  "dumps_value v = (case v of None \<Rightarrow> py ''null'' | Some s \<Rightarrow> encode_string s)"

text \<open>
  Lines 151 to 156: the dictionary of one row, with the item separator \<open>", "\<close> and
  the key separator \<open>": "\<close> of \<open>json.dumps\<close>.
\<close>

definition dumps_row :: "production_row \<Rightarrow> pystr" where
  "dumps_row row =
     py ''{'' @ encode_string (py ''book_id'') @ py '': '' @ dumps_value (p_PERMANENT_ID row) @
     py '', '' @ encode_string (py ''book_title'') @ py '': '' @ dumps_value (p_TITLE row) @
     py '', '' @ encode_string (py ''book_Description'') @ py '': '' @
     dumps_value (p_DESCRIPTION row) @ py ''}''"

text \<open>Lines 149 to 156: one line per row.\<close>

definition library_data :: "production_row list \<Rightarrow> pystr" where
  "library_data rows = concat (map (\<lambda>row. dumps_row row @ [10]) rows)"

text \<open>
  Lines 136 to 162: \<open>SELECT DISTINCT\<close> of the production join, one dumped line per
  row. The function writes the text to a temporary file and returns its path; the
  model returns the text written.
\<close>

definition production_rows :: "warehouse \<Rightarrow> production_row list" where
  "production_rows db = remdups (production_join db)"

definition fetch_all_production_books :: "warehouse \<Rightarrow> exn + pystr" where
  "fetch_all_production_books db =
     (case execute_raises db of
        Some e \<Rightarrow> Inl e
      | None \<Rightarrow> Inr (library_data (production_rows db)))"

subsection \<open>Lines of a file and JSON objects\<close>

text \<open>The lines of a text: the pieces ended by a line feed, and what follows the last.\<close>

fun split_lines :: "pystr \<Rightarrow> pystr \<Rightarrow> pystr list" where
  "split_lines cur [] = (if cur = [] then [] else [cur])"
| "split_lines cur (c # cs) =
     (if c = 10 then cur # split_lines [] cs else split_lines (cur @ [c]) cs)"

definition file_lines :: "pystr \<Rightarrow> pystr list" where
  "file_lines content = split_lines [] content"

text \<open>
  A recogniser of JSON texts (RFC 8259) that are an object whose member values are
  strings or \<open>null\<close>; it gives the member names. \<open>json_string_body\<close> reads a string
  after its opening quote and gives the characters it denotes (a \<open>\uXXXX\<close> escape as
  the code unit) and the text after the closing quote.
\<close>

definition is_ws :: "nat \<Rightarrow> bool" where
  "is_ws c = (c = 32 \<or> c = 9 \<or> c = 10 \<or> c = 13)"

definition skip_ws :: "pystr \<Rightarrow> pystr" where
  "skip_ws s = dropWhile is_ws s"

definition hex_value :: "nat \<Rightarrow> nat option" where
  "hex_value c =
     (if 48 \<le> c \<and> c \<le> 57 then Some (c - 48)
      else if 97 \<le> c \<and> c \<le> 102 then Some (c - 87)
      else if 65 \<le> c \<and> c \<le> 70 then Some (c - 55)
      else None)"

definition hex4_value :: "pystr \<Rightarrow> nat option" where
  "hex4_value s =
     (case map hex_value s of
        [Some a, Some b, Some c, Some d] \<Rightarrow> Some (4096 * a + 256 * b + 16 * c + d)
      | _ \<Rightarrow> None)"

definition unescape :: "nat \<Rightarrow> nat option" where
  "unescape e =
     (if e = 34 \<or> e = 92 \<or> e = 47 then Some e
      else if e = 98 then Some 8
      else if e = 102 then Some 12
      else if e = 110 then Some 10
      else if e = 114 then Some 13
      else if e = 116 then Some 9
      else None)"

definition prepend :: "nat \<Rightarrow> (pystr \<times> pystr) option \<Rightarrow> (pystr \<times> pystr) option" where
  "prepend c r = (case r of None \<Rightarrow> None | Some (d, rest) \<Rightarrow> Some (c # d, rest))"

function json_string_body :: "pystr \<Rightarrow> (pystr \<times> pystr) option" where
  "json_string_body [] = None"
| "json_string_body (c # cs) =
     (if c = 34 then Some ([], cs)
      else if c = 92 then
        (case cs of
           [] \<Rightarrow> None
         | e # r \<Rightarrow>
             if e = 117 then
               (case hex4_value (take 4 r) of
                  None \<Rightarrow> None
                | Some u \<Rightarrow> prepend u (json_string_body (drop 4 r)))
             else (case unescape e of
                     None \<Rightarrow> None
                   | Some ch \<Rightarrow> prepend ch (json_string_body r)))
      else if c < 32 then None
      else prepend c (json_string_body cs))"
  by pat_completeness auto
termination
  by (relation "measure length") auto

definition json_string :: "pystr \<Rightarrow> (pystr \<times> pystr) option" where
  "json_string s =
     (case s of [] \<Rightarrow> None | c # cs \<Rightarrow> if c = 34 then json_string_body cs else None)"

text \<open>A member value: \<open>null\<close> or a string; the result is the text after it.\<close>

definition json_scalar :: "pystr \<Rightarrow> pystr option" where
  "json_scalar s =
     (if take 4 s = py ''null'' then Some (drop 4 s)
      else (case json_string s of None \<Rightarrow> None | Some (d, rest) \<Rightarrow> Some rest))"

lemma json_string_body_shorter:
  "json_string_body s = Some (d, rest) \<Longrightarrow> length rest < length s"
proof (induction s arbitrary: d rule: json_string_body.induct)
  case 1
  then show ?case by simp
next
  case (2 c cs)
  show ?case
  proof (cases "c = 34")
    case True
    with 2 show ?thesis by simp
  next
    case False
    note c34 = this
    show ?thesis
    proof (cases "c = 92")
      case False
      with c34 2 show ?thesis
        by (auto simp: prepend_def split: if_splits option.splits)
    next
      case True
      with 2 show ?thesis
        by (auto simp: prepend_def split: if_splits option.splits list.splits)
          (fastforce+)?
    qed
  qed
qed

lemma json_string_shorter:
  "json_string s = Some (d, rest) \<Longrightarrow> length rest < length s"
  by (cases s) (auto simp: json_string_def split: if_splits dest: json_string_body_shorter)

lemma json_scalar_shorter:
  "json_scalar s = Some rest \<Longrightarrow> length rest \<le> length s"
  by (auto simp: json_scalar_def split: if_splits option.splits dest: json_string_shorter)

lemma skip_ws_length: "length (skip_ws s) \<le> length s"
  by (simp add: skip_ws_def length_dropWhile_le)

text \<open>
  The members of an object that is not empty, from the first member name on: name,
  colon, value, and then a comma and the next member or the closing brace. The result
  is the member names and the text after the brace.
\<close>

function json_members :: "pystr \<Rightarrow> (pystr list \<times> pystr) option" where
  "json_members s =
     (case json_string s of
        None \<Rightarrow> None
      | Some (k, r1) \<Rightarrow>
          (case skip_ws r1 of
             [] \<Rightarrow> None
           | c # r2 \<Rightarrow>
               if c \<noteq> 58 then None
               else (case json_scalar (skip_ws r2) of
                       None \<Rightarrow> None
                     | Some r3 \<Rightarrow>
                         (case skip_ws r3 of
                            [] \<Rightarrow> None
                          | c' # r4 \<Rightarrow>
                              if c' = 125 then Some ([k], r4)
                              else if c' = 44 then
                                (case json_members (skip_ws r4) of
                                   None \<Rightarrow> None
                                 | Some (ks, rest) \<Rightarrow> Some (k # ks, rest))
                              else None))))"
  by pat_completeness auto
termination
proof (relation "measure length", goal_cases)
  case 1
  show ?case by simp
next
  case (2 s x2 k r1 c r2 r3 c' r4)
  have "length (skip_ws r4) \<le> length r4" by (rule skip_ws_length)
  also have "\<dots> < length (skip_ws r3)" using 2 by simp
  also have "\<dots> \<le> length r3" by (rule skip_ws_length)
  also have "\<dots> \<le> length (skip_ws r2)" using 2 by (intro json_scalar_shorter) simp
  also have "\<dots> \<le> length r2" by (rule skip_ws_length)
  also have "\<dots> < length (skip_ws r1)" using 2 by simp
  also have "\<dots> \<le> length r1" by (rule skip_ws_length)
  also have "\<dots> < length s" using 2 by (intro json_string_shorter [of s k]) simp
  finally show ?case by simp
qed

declare json_members.simps [simp del]

definition json_object_keys :: "pystr \<Rightarrow> pystr list option" where
  "json_object_keys s =
     (case skip_ws s of
        [] \<Rightarrow> None
      | c # r \<Rightarrow>
          if c \<noteq> 123 then None
          else (case skip_ws r of
                  [] \<Rightarrow> None
                | c' # r' \<Rightarrow>
                    if c' = 125 then (if skip_ws r' = [] then Some [] else None)
                    else (case json_members (c' # r') of
                            None \<Rightarrow> None
                          | Some (ks, rest) \<Rightarrow> if skip_ws rest = [] then Some ks else None)))"

definition plain_key :: "pystr \<Rightarrow> bool" where
  "plain_key k = list_all (\<lambda>c. 32 \<le> c \<and> c \<le> 126 \<and> c \<noteq> 34 \<and> c \<noteq> 92) k"

text \<open>
  The specification's words (C3): the line is a JSON object with exactly the given keys. And the
  one line of the export of the small warehouse.
\<close>

definition json_object_with_keys :: "pystr \<Rightarrow> pystr list \<Rightarrow> bool" where
  "json_object_with_keys line keys =
     (case json_object_keys line of
        None \<Rightarrow> False
      | Some ks \<Rightarrow> distinct ks \<and> set ks = set keys)"

definition sample_line :: pystr where
  "sample_line =
     py ''{'' @ quoted ''book_id'' @ py '': '' @ quoted ''1'' @ py '', '' @
     quoted ''book_title'' @ py '': '' @ quoted ''T1'' @ py '', '' @
     quoted ''book_Description'' @ py '': '' @ quoted ''A long story'' @ py ''}''"

section \<open>The batch job: teardown and the user limit\<close>

lemma user_loop_limit:
  "0 < n \<Longrightarrow> length (snd (user_loop body i n users)) \<le> nat n"
proof (induction users arbitrary: i n)
  case Nil
  then show ?case by simp
next
  case (Cons u users)
  show ?case
  proof (cases "body i u")
    case (Some e)
    with Cons.prems show ?thesis by simp
  next
    case None
    show ?thesis
    proof (cases "n = 1")
      case True
      with None show ?thesis by simp
    next
      case False
      with Cons.prems have pos: "0 < n - 1" by simp
      from Cons.IH [OF pos, of "Suc i"]
      have "length (snd (user_loop body (Suc i) (n - 1) users)) \<le> nat (n - 1)" .
      with None False pos show ?thesis
        by (simp add: split_beta)
    qed
  qed
qed

lemma filter_teardown_process [simp]:
  "filter is_teardown (map ProcessUser us) = []"
  by (induction us) simp_all

lemma filter_process_process [simp]:
  "filter is_process (map ProcessUser us) = map ProcessUser us"
  by (induction us) simp_all


text \<open>
  C4. The loop tests the counter against 1 only after a user has been processed, so
  with the argument 0 the counter goes to -1, -2, ... and the job processes every
  active user: here both of them.
\<close>

theorem run_task_limit_zero:
  "users_processed (snd (run_task (quiet_env (Some (py ''0''))))) = 2"
  by (simp add: run_task_def quiet_env_def number_of_users_arg_def guarded_part_def
      users_processed_def py_def int_plain_def is_ascii_digit_def decimal_value_def)

text \<open>
  For a positive argument the claim of C4 holds: at most that many users are processed.
\<close>

lemma run_task_limit_positive:
  assumes "number_of_users_arg env = Inr n" and "0 < n"
  shows "users_processed (snd (run_task env)) \<le> nat n"
proof -
  have "length (snd (user_loop (per_user env) 0 n users)) \<le> nat n" for users
    using assms(2) by (rule user_loop_limit)
  then have "users_processed (snd (guarded_part env a n)) \<le> nat n" for a
    by (simp add: guarded_part_def users_processed_def split_beta split: sum.split)
  then show ?thesis
    using assms(1)
    by (simp add: run_task_def users_processed_def split_beta
        split: sum.split option.split)
qed




section \<open>Citation stripping\<close>

lemma re_sub_citation_none:
  "\<not> has_citation s \<Longrightarrow> re_sub_citation s = s"
  by (induction s) (auto split: option.splits)

lemma re_sub_citation_length:
  "length (re_sub_citation s) \<le> length s"
proof (induction s rule: re_sub_citation.induct)
  case 1
  show ?case by simp
next
  case (2 c r)
  show ?case
  proof (cases "match_citation (c # r)")
    case None
    with 2 show ?thesis by simp
  next
    case (Some rest)
    with 2 have "length (re_sub_citation rest) \<le> length rest" by simp
    with match_citation_shorter [OF Some] Some show ?thesis by simp
  qed
qed

lemma re_sub_citation_shorter:
  "has_citation s \<Longrightarrow> length (re_sub_citation s) < length s"
proof (induction s)
  case Nil
  then show ?case by simp
next
  case (Cons c r)
  show ?case
  proof (cases "match_citation (c # r)")
    case None
    with Cons show ?thesis by simp
  next
    case (Some rest)
    with match_citation_shorter [OF Some] re_sub_citation_length [of rest]
    show ?thesis by simp
  qed
qed

lemma dropWhile_id: "xs = [] \<or> \<not> P (hd xs) \<Longrightarrow> dropWhile P xs = xs"
  by (cases xs) auto

lemma dropWhile_head: "dropWhile P xs = [] \<or> \<not> P (hd (dropWhile P xs))"
  using hd_dropWhile [of P xs] by blast

lemma rev_dropWhile_rev_head:
  assumes "xs = [] \<or> \<not> P (hd xs)"
  shows "rev (dropWhile Q (rev xs)) = [] \<or> \<not> P (hd (rev (dropWhile Q (rev xs))))"
proof (cases "dropWhile Q (rev xs) = []")
  case True
  then show ?thesis by simp
next
  case False
  have "rev xs = takeWhile Q (rev xs) @ dropWhile Q (rev xs)" by simp
  then have "xs = rev (dropWhile Q (rev xs)) @ rev (takeWhile Q (rev xs))"
    by (metis rev_append rev_rev_ident)
  with False have "hd xs = hd (rev (dropWhile Q (rev xs)))"
    by (metis hd_append2 rev_is_Nil_conv)
  with assms False show ?thesis by auto
qed

lemma strip_idem: "strip (strip s) = strip s"
proof -
  let ?t = "dropWhile isspace s"
  let ?u = "dropWhile isspace (rev ?t)"
  have "rev ?u = [] \<or> \<not> isspace (hd (rev ?u))"
    by (rule rev_dropWhile_rev_head) (rule dropWhile_head)
  then have "dropWhile isspace (rev ?u) = rev ?u" by (rule dropWhile_id)
  then show ?thesis by (simp add: strip_def)
qed

lemma strip_length: "length (strip s) \<le> length s"
proof -
  have "length (strip s) \<le> length (dropWhile isspace s)"
    using length_dropWhile_le [of isspace "rev (dropWhile isspace s)"]
    by (simp add: strip_def)
  also have "\<dots> \<le> length s" by (rule length_dropWhile_le)
  finally show ?thesis .
qed

lemma clean_text_twice:
  "(clean_text (clean_text s) = clean_text s) = (\<not> has_citation (clean_text s))"
proof
  assume eq: "clean_text (clean_text s) = clean_text s"
  show "\<not> has_citation (clean_text s)"
  proof
    assume "has_citation (clean_text s)"
    then have "length (re_sub_citation (clean_text s)) < length (clean_text s)"
      by (rule re_sub_citation_shorter)
    with strip_length [of "re_sub_citation (clean_text s)"]
    have "length (clean_text (clean_text s)) < length (clean_text s)"
      by (simp add: clean_text_def)
    with eq show False by simp
  qed
next
  assume "\<not> has_citation (clean_text s)"
  then have "re_sub_citation (clean_text s) = clean_text s"
    by (rule re_sub_citation_none)
  then have "clean_text (clean_text s) = strip (clean_text s)"
    by (simp add: clean_text_def)
  also have "\<dots> = clean_text s"
    by (simp add: clean_text_def strip_idem)
  finally show "clean_text (clean_text s) = clean_text s" .
qed

text \<open>
  C2, as stated, fails: removing a marker joins the text on both sides of it, which can
  form a new marker that only a second pass removes.
\<close>

theorem clean_text_idempotent_counterexample:
  "clean_text nested_citation = [12304] @ py ''1:4'' @ citation_tail \<and>
   clean_text (clean_text nested_citation) = [] \<and>
   clean_text (clean_text nested_citation) \<noteq> clean_text nested_citation"
proof -
  have one: "clean_text nested_citation = [12304] @ py ''1:4'' @ citation_tail"
    by (simp add: clean_text_def nested_citation_def py_def citation_tail_def
        match_citation_def strip_def isdecimal_def isspace_def in_ranges_def
        unicode_decimal_ranges_def unicode_space_ranges_def)
  have two: "clean_text ([12304] @ py ''1:4'' @ citation_tail) = []"
    by (simp add: clean_text_def py_def citation_tail_def
        match_citation_def strip_def isdecimal_def isspace_def in_ranges_def
        unicode_decimal_ranges_def unicode_space_ranges_def)
  from one two show ?thesis by simp
qed

text \<open>
  C2, amended. A second pass of \<open>clean_text\<close> changes nothing exactly when the result
  of the first pass contains no citation marker; and on the input of the example the
  marker is removed and the text around it, both spaces included, is kept.
\<close>

theorem clean_text_idempotent_iff:
  "(clean_text (clean_text s) = clean_text s) = (\<not> has_citation (clean_text s)) \<and>
   clean_text great_book = py ''Great book  for kids''"
proof
  show "(clean_text (clean_text s) = clean_text s) = (\<not> has_citation (clean_text s))"
    by (rule clean_text_twice)
  show "clean_text great_book = py ''Great book  for kids''"
    by (simp add: clean_text_def great_book_def py_def citation_tail_def match_citation_def
        strip_def isdecimal_def isspace_def in_ranges_def unicode_decimal_ranges_def
        unicode_space_ranges_def)
qed

theorem clean_text_idempotent_iff_witness:
  "\<not> has_citation (clean_text great_book) \<and>
   clean_text (clean_text great_book) = clean_text great_book \<and>
   clean_text great_book = py ''Great book  for kids''"
proof -
  from clean_text_idempotent_iff [of great_book]
  have iff: "(clean_text (clean_text great_book) = clean_text great_book) =
             (\<not> has_citation (clean_text great_book))"
    and eq: "clean_text great_book = py ''Great book  for kids''"
    by blast+
  have no: "\<not> has_citation (clean_text great_book)"
    unfolding eq by (simp add: py_def match_citation_def)
  with iff have "clean_text (clean_text great_book) = clean_text great_book"
    by blast
  with no eq show ?thesis by blast
qed

section \<open>The assistant runs: failed runs and returned recommendations\<close>

lemma poll_loop_through:
  "polls_through h env i n acc = Some acc' \<Longrightarrow>
   poll_loop h env i acc = poll_loop h env (i + n) acc'"
proof (induction n arbitrary: i acc)
  case 0
  then show ?case by simp
next
  case (Suc n)
  from Suc.prems obtain rs a1 where r: "retrieve env i = Inr rs"
    and nf: "\<not> final_status (status rs)"
    and st: "poll_step h i rs acc = Inr a1"
    and rest: "polls_through h env (Suc i) n a1 = Some acc'"
    by (auto split: sum.splits if_splits)
  from Suc.IH [OF rest] have "poll_loop h env (Suc i) a1 = poll_loop h env (Suc i + n) acc'" .
  with r nf st show ?case
    by (subst poll_loop.simps) simp
qed

lemma poll_loop_final:
  "retrieve env i = Inr rs \<Longrightarrow> final_status (status rs) \<Longrightarrow>
   poll_loop h env i acc = Some (Inr (status rs, acc))"
  by (subst poll_loop.simps) simp

lemma py_reason_title [simp]:
  "py ''reason'' \<noteq> py ''book_title''" "py ''book_title'' \<noteq> py ''reason''"
  "py ''book_id'' \<noteq> py ''reason''" "py ''reason'' \<noteq> py ''book_id''"
  "py ''book_id'' \<noteq> py ''book_title''" "py ''book_title'' \<noteq> py ''book_id''"
  by (simp_all add: py_def)

lemma clean_field_Inr:
  assumes "clean_field key book = Inr book'"
  obtains kvs t where "book = JObj kvs" "map_of kvs key = Some (JStr t)"
    "book' = JObj (AList.update key (JStr (clean_text t)) kvs)"
proof (cases book)
  case (JObj kvs)
  with assms show ?thesis
    by (auto split: option.splits json.splits intro: that)
qed (use assms in simp_all)

lemma update_present_keys:
  "map_of kvs key = Some v \<Longrightarrow> map fst (AList.update key w kvs) = map fst kvs"
  by (simp add: update_keys map_of_eq_Some_iff weak_map_of_SomeI domI dom_map_of_conv_image_fst [symmetric])

lemma clean_book_rewritten:
  assumes "clean_book book = Inr book'"
  shows "book_rewritten book book'"
proof -
  from assms obtain book1 where 1: "clean_field (py ''reason'') book = Inr book1"
    and 2: "clean_field (py ''book_title'') book1 = Inr book'"
    by (auto simp: clean_book_def split: sum.splits)
  from 1 obtain kvs r where b: "book = JObj kvs"
    and r: "map_of kvs (py ''reason'') = Some (JStr r)"
    and b1: "book1 = JObj (AList.update (py ''reason'') (JStr (clean_text r)) kvs)"
    by (rule clean_field_Inr)
  let ?kvs1 = "AList.update (py ''reason'') (JStr (clean_text r)) kvs"
  from 2 obtain kvs1 t where "book1 = JObj kvs1"
    "map_of kvs1 (py ''book_title'') = Some (JStr t)"
    "book' = JObj (AList.update (py ''book_title'') (JStr (clean_text t)) kvs1)"
    by (rule clean_field_Inr)
  with b1 have t1: "map_of ?kvs1 (py ''book_title'') = Some (JStr t)"
    and b': "book' = JObj (AList.update (py ''book_title'') (JStr (clean_text t)) ?kvs1)"
    by simp_all
  from t1 have t: "map_of kvs (py ''book_title'') = Some (JStr t)"
    by (simp add: update_conv')
  have keys: "map fst (AList.update (py ''book_title'') (JStr (clean_text t)) ?kvs1) = map fst kvs"
    using update_present_keys [OF t1] update_present_keys [OF r] by simp
  show ?thesis
    unfolding book_rewritten_def b b'
    using keys r t by (simp add: update_conv')
qed

lemma clean_books_rewritten:
  "clean_books books = Inr books' \<Longrightarrow>
   length books' = length books \<and>
   (\<forall>j < length books. book_rewritten (books ! j) (books' ! j))"
proof (induction books arbitrary: books')
  case Nil
  then show ?case by simp
next
  case (Cons b books)
  from Cons.prems obtain b1 bs1 where c: "clean_book b = Inr b1"
    and cs: "clean_books books = Inr bs1" and eq: "books' = b1 # bs1"
    by (auto split: sum.splits)
  from Cons.IH [OF cs] clean_book_rewritten [OF c] eq show ?case
    by (auto simp: nth_Cons split: nat.splits)
qed

lemma clean_recommended_rewritten:
  "clean_recommended raw = Inr returned \<Longrightarrow> books_rewritten raw returned"
  by (cases raw)
    (auto simp: books_rewritten_def split: sum.splits if_splits dest: clean_books_rewritten)

lemma search_tool_calls_origin:
  "search_tool_calls env i tool_calls acc = Inr acc' \<Longrightarrow>
   acc' = acc \<or>
   (\<exists>tool_call f args raw.
      tool_call \<in> set tool_calls \<and> call_function tool_call = Some f \<and>
      function_name f = py ''recommend_books'' \<and> function_args env f = Inr args \<and>
      dict_get args (py ''recommended_books'') (JArr []) = Inr raw \<and>
      clean_recommended raw = Inr acc')"
proof (induction tool_calls arbitrary: acc)
  case Nil
  then show ?case by simp
next
  case (Cons tc tcs)
  show ?case
  proof (cases "call_function tc")
    case None
    with Cons.prems have "search_tool_calls env i tcs acc = Inr acc'" by simp
    from Cons.IH [OF this] show ?thesis by auto
  next
    case (Some f)
    with Cons.prems obtain args where a: "function_args env f = Inr args"
      by (auto split: sum.splits)
    show ?thesis
    proof (cases "function_name f = py ''recommend_books''")
      case False
      with Cons.prems Some a have "search_tool_calls env i tcs acc = Inr acc'" by simp
      from Cons.IH [OF this] show ?thesis by auto
    next
      case True
      with Cons.prems Some a obtain raw books where
        g: "dict_get args (py ''recommended_books'') (JArr []) = Inr raw"
        and c: "clean_recommended raw = Inr books"
        and rest: "search_tool_calls env i tcs books = Inr acc'"
        by (auto split: sum.splits option.splits)
      from Cons.IH [OF rest] show ?thesis
      proof
        assume "acc' = books"
        with Some a True g c show ?thesis by auto
      next
        assume "\<exists>tool_call f args raw.
          tool_call \<in> set tcs \<and> call_function tool_call = Some f \<and>
          function_name f = py ''recommend_books'' \<and> function_args env f = Inr args \<and>
          dict_get args (py ''recommended_books'') (JArr []) = Inr raw \<and>
          clean_recommended raw = Inr acc'"
        then show ?thesis by auto
      qed
    qed
  qed
qed

lemma polls_through_origin:
  "polls_through (search_tool_calls env) env i n acc = Some acc' \<Longrightarrow>
   acc' = acc \<or> (\<exists>raw. supplies env raw \<and> clean_recommended raw = Inr acc')"
proof (induction n arbitrary: i acc)
  case 0
  then show ?case by simp
next
  case (Suc n)
  from Suc.prems obtain rs a1 where r: "retrieve env i = Inr rs"
    and st: "poll_step (search_tool_calls env) i rs acc = Inr a1"
    and rest: "polls_through (search_tool_calls env) env (Suc i) n a1 = Some acc'"
    by (auto split: sum.splits if_splits)
  have first: "a1 = acc \<or> (\<exists>raw. supplies env raw \<and> clean_recommended raw = Inr a1)"
  proof (cases "status rs = py ''requires_action''")
    case False
    with st show ?thesis by (simp add: poll_step_def)
  next
    case True
    show ?thesis
    proof (cases "required_action rs")
      case None
      with st True show ?thesis by (simp add: poll_step_def)
    next
      case (Some tcs)
      with st True have "search_tool_calls env i tcs acc = Inr a1"
        by (simp add: poll_step_def)
      from search_tool_calls_origin [OF this] r True Some show ?thesis
        unfolding supplies_def by blast
    qed
  qed
  from Suc.IH [OF rest] first show ?case by auto
qed

lemma sample_title_clean: "clean_text sample_title = py ''Mars''"
  by (simp add: clean_text_def sample_title_def py_def citation_tail_def match_citation_def
      strip_def isdecimal_def isspace_def in_ranges_def unicode_decimal_ranges_def
      unicode_space_ranges_def)

lemma sample_reason_clean: "clean_text (py ''about space'') = py ''about space''"
  by (simp add: clean_text_def py_def match_citation_def
      strip_def isspace_def in_ranges_def unicode_space_ranges_def)

lemma sample_interest_polls:
  "polls_through (interest_tool_calls (sample_service final)) (sample_service final) 0 1
     (JStr []) = Some (JStr (py ''likes space''))"
proof -
  have n: "\<not> final_status (py ''requires_action'')"
    by (simp add: final_status_def py_def)
  have k: "map_of [(py ''recommendation_summary'', JStr (py ''likes space'')),
                   (py ''recommended_books'', b)] (py ''recommendation_summary'')
           = Some (JStr (py ''likes space''))" for b :: "nat json"
    by simp
  show ?thesis
    by (simp add: sample_service_def n poll_step_def function_args_def function_name_def
        sample_parsed_def k del: map_of.simps)
qed

lemma sample_search_polls:
  "polls_through (search_tool_calls (sample_service final)) (sample_service final) 0 1
     (JArr []) = Some sample_cleaned"
proof -
  have n: "\<not> final_status (py ''requires_action'')"
    by (simp add: final_status_def py_def)
  have k: "py ''recommended_books'' \<noteq> py ''recommendation_summary''"
    by (simp add: py_def)
  have c: "clean_book (JObj [(py ''book_id'', JStr (py ''b1'')),
                        (py ''book_title'', JStr sample_title),
                        (py ''reason'', JStr (py ''about space''))])
           = Inr (JObj [(py ''book_id'', JStr (py ''b1'')),
                 (py ''book_title'', JStr (py ''Mars'')),
                 (py ''reason'', JStr (py ''about space''))] :: nat json)"
    by (simp add: clean_book_def sample_title_clean sample_reason_clean)
  show ?thesis
    by (simp add: sample_service_def n poll_step_def function_args_def function_name_def
        sample_parsed_def sample_cleaned_def k c)
qed

text \<open>
  C6. When the polling loop observes the status \<open>failed\<close> or \<open>cancelled\<close> (the polls
  before it neither ended the loop nor raised), \<open>analyze_user_interest\<close> returns the
  empty string and \<open>search_books_by_interest\<close> the empty list: both return, and
  neither raises, whatever the tool calls had supplied before.
\<close>

theorem failed_run_returns_empty:
  assumes "open_run ea = None"
    and "polls_through (interest_tool_calls ea) ea 0 na (JStr []) = Some summary"
    and "retrieve ea na = Inr ra"
    and "status ra = py ''failed'' \<or> status ra = py ''cancelled''"
    and "open_run es = None"
    and "polls_through (search_tool_calls es) es 0 ns (JArr []) = Some books"
    and "retrieve es ns = Inr rs"
    and "status rs = py ''failed'' \<or> status rs = py ''cancelled''"
  shows "analyze_user_interest ea = Some (Inr (JStr [])) \<and>
         search_books_by_interest es = Some (Inr (JArr []))"
proof
  from assms(4) have fa: "final_status (status ra)" and na: "status ra \<noteq> py ''completed''"
    by (auto simp: final_status_def py_def)
  from poll_loop_through [OF assms(2)] poll_loop_final [OF assms(3) fa]
  have "poll_loop (interest_tool_calls ea) ea 0 (JStr []) = Some (Inr (status ra, summary))"
    by simp
  with assms(1) na show "analyze_user_interest ea = Some (Inr (JStr []))"
    by (simp add: analyze_user_interest_def)
next
  from assms(8) have fs: "final_status (status rs)" and ns: "status rs \<noteq> py ''completed''"
    by (auto simp: final_status_def py_def)
  from poll_loop_through [OF assms(6)] poll_loop_final [OF assms(7) fs]
  have "poll_loop (search_tool_calls es) es 0 (JArr []) = Some (Inr (status rs, books))"
    by simp
  with assms(5) ns show "search_books_by_interest es = Some (Inr (JArr []))"
    by (simp add: search_books_by_interest_def)
qed

theorem failed_run_returns_empty_witness:
  "open_run (sample_service (py ''failed'')) = None \<and>
   polls_through (interest_tool_calls (sample_service (py ''failed'')))
     (sample_service (py ''failed'')) 0 1 (JStr []) = Some (JStr (py ''likes space'')) \<and>
   retrieve (sample_service (py ''failed'')) 1
     = Inr \<lparr> status = py ''failed'', required_action = None \<rparr> \<and>
   open_run (sample_service (py ''cancelled'')) = None \<and>
   polls_through (search_tool_calls (sample_service (py ''cancelled'')))
     (sample_service (py ''cancelled'')) 0 1 (JArr []) = Some sample_cleaned \<and>
   retrieve (sample_service (py ''cancelled'')) 1
     = Inr \<lparr> status = py ''cancelled'', required_action = None \<rparr> \<and>
   analyze_user_interest (sample_service (py ''failed'')) = Some (Inr (JStr [])) \<and>
   search_books_by_interest (sample_service (py ''cancelled'')) = Some (Inr (JArr []))"
proof -
  have 1: "open_run (sample_service f) = None" for f
    by (simp add: sample_service_def)
  have 3: "retrieve (sample_service f) 1 = Inr \<lparr> status = f, required_action = None \<rparr>" for f
    by (simp add: sample_service_def)
  have 4: "status \<lparr> status = py ''failed'', required_action = None \<rparr> = py ''failed'' \<or>
           status \<lparr> status = py ''failed'', required_action = None \<rparr> = py ''cancelled''"
    by simp
  have 8: "status \<lparr> status = py ''cancelled'', required_action = None \<rparr> = py ''failed'' \<or>
           status \<lparr> status = py ''cancelled'', required_action = None \<rparr> = py ''cancelled''"
    by simp
  from failed_run_returns_empty [OF 1 sample_interest_polls 3 4 1 sample_search_polls 3 8]
  show ?thesis
    using 1 3 sample_interest_polls sample_search_polls by simp
qed

text \<open>
  C10. When the run completes, \<open>search_books_by_interest\<close> returns the value collected
  by the loop: the initial empty list, or what a \<open>recommend_books\<close> tool call of the
  run supplied, with every book of the list rewritten in its \<open>reason\<close> and
  \<open>book_title\<close> only. The keys of each book, its \<open>book_id\<close> and every other field are
  returned as they were in the arguments of the tool call.
\<close>

theorem search_books_keeps_book_id:
  assumes "open_run env = None"
    and "polls_through (search_tool_calls env) env 0 n (JArr []) = Some returned"
    and "retrieve env n = Inr rs"
    and "status rs = py ''completed''"
  shows "search_books_by_interest env = Some (Inr returned) \<and>
         (returned = JArr [] \<or>
          (\<exists>raw. supplies env raw \<and> books_rewritten raw returned))"
proof
  from assms(4) have f: "final_status (status rs)"
    by (simp add: final_status_def)
  from poll_loop_through [OF assms(2)] poll_loop_final [OF assms(3) f]
  have "poll_loop (search_tool_calls env) env 0 (JArr []) = Some (Inr (status rs, returned))"
    by simp
  with assms(1,4) show "search_books_by_interest env = Some (Inr returned)"
    by (simp add: search_books_by_interest_def)
next
  from polls_through_origin [OF assms(2)]
  show "returned = JArr [] \<or> (\<exists>raw. supplies env raw \<and> books_rewritten raw returned)"
    by (auto dest: clean_recommended_rewritten)
qed

theorem search_books_keeps_book_id_witness:
  "open_run (sample_service (py ''completed'')) = None \<and>
   polls_through (search_tool_calls (sample_service (py ''completed'')))
     (sample_service (py ''completed'')) 0 1 (JArr []) = Some sample_cleaned \<and>
   retrieve (sample_service (py ''completed'')) 1
     = Inr \<lparr> status = py ''completed'', required_action = None \<rparr> \<and>
   search_books_by_interest (sample_service (py ''completed'')) = Some (Inr sample_cleaned)"
proof -
  have 1: "open_run (sample_service f) = None" for f
    by (simp add: sample_service_def)
  have 3: "retrieve (sample_service f) 1 = Inr \<lparr> status = f, required_action = None \<rparr>" for f
    by (simp add: sample_service_def)
  have 4: "status \<lparr> status = py ''completed'', required_action = None \<rparr> = py ''completed''"
    by simp
  from search_books_keeps_book_id [OF 1 sample_search_polls 3 4]
  show ?thesis
    using 1 3 sample_search_polls by simp
qed

section \<open>Teardown of the assistant\<close>




lemma listed_stores_append [simp]:
  "listed_stores (s @ t) = listed_stores s @ listed_stores t"
  by (induction s rule: listed_stores.induct) simp_all




lemma printed_failures_append [simp]:
  "printed_failures (s @ t) = printed_failures s @ printed_failures t"
  by (induction s rule: printed_failures.induct) simp_all







section \<open>The warehouse queries\<close>

lemma order_by_desc_set [simp]: "set (order_by_desc k rows) = set rows"
  by (simp add: order_by_desc_def)

lemma order_by_desc_sorted: "sorted (rev (map k (order_by_desc k rows)))"
  by (simp add: order_by_desc_def rev_map [symmetric])

lemma order_by_desc_distinct:
  "distinct (map f (order_by_desc k rows)) = distinct (map f rows)"
proof -
  have "mset (map f (order_by_desc k rows)) = mset (map f rows)"
    by (simp add: order_by_desc_def)
  then show ?thesis by (metis distinct_count_atmost_1 set_mset_mset)
qed







lemma first_of_partition_id:
  "r \<in> set (first_of_partition joined p) \<Longrightarrow> b_PERMANENT_ID (snd r) = p"
proof -
  assume "r \<in> set (first_of_partition joined p)"
  then have "r \<in> set (order_by_desc (desc_key \<circ> s_EVENT_TIME \<circ> fst)
               (filter (\<lambda>r. b_PERMANENT_ID (snd r) = p) joined))"
    unfolding first_of_partition_def by (rule in_set_takeD)
  then show ?thesis by simp
qed

lemma first_of_partition_ids:
  "map (b_PERMANENT_ID \<circ> snd) (first_of_partition joined p) =
     (if first_of_partition joined p = [] then [] else [p])"
proof (cases "first_of_partition joined p")
  case Nil
  then show ?thesis by simp
next
  case (Cons r rs)
  have "length (first_of_partition joined p) \<le> 1"
    by (simp add: first_of_partition_def)
  with Cons have rs: "rs = []" by simp
  from Cons have "r \<in> set (first_of_partition joined p)" by simp
  then have "b_PERMANENT_ID (snd r) = p" by (rule first_of_partition_id)
  with Cons rs show ?thesis by simp
qed

lemma distinct_concat_ids:
  "distinct ps \<Longrightarrow>
   distinct (map (b_PERMANENT_ID \<circ> snd) (concat (map (first_of_partition joined) ps)))"
proof (induction ps)
  case Nil
  show ?case by simp
next
  case (Cons p ps)
  let ?f = "b_PERMANENT_ID \<circ> snd"
  let ?A = "map ?f (first_of_partition joined p)"
  let ?B = "map ?f (concat (map (first_of_partition joined) ps))"
  have B: "set ?B \<subseteq> set ps"
    by (auto dest: first_of_partition_id)
  have A: "?A = (if first_of_partition joined p = [] then [] else [p])"
    by (rule first_of_partition_ids)
  from A have dA: "distinct ?A" and sA: "set ?A \<subseteq> {p}"
    by (simp_all split: if_splits)
  from Cons.prems have p: "p \<notin> set ps" and "distinct ps" by simp_all
  then have dB: "distinct ?B" using Cons.IH by blast
  from sA B p have "set ?A \<inter> set ?B = {}" by blast
  with dA dB have "distinct (?A @ ?B)"
    unfolding distinct_append by blast
  then show ?case by (simp only: list.map concat.simps map_append)
qed

lemma ranked_first_distinct:
  "distinct (map (b_PERMANENT_ID \<circ> snd) (ranked_first joined))"
  unfolding ranked_first_def by (rule distinct_concat_ids) simp

lemma distinct_map_take: "distinct (map f xs) \<Longrightarrow> distinct (map f (take n xs))"
  by (simp add: take_map [symmetric])

lemma user_read_rows_distinct:
  "distinct (map (b_PERMANENT_ID \<circ> snd) (user_read_rows db user_id n))"
  unfolding user_read_rows_def
  by (intro distinct_map_take) (simp add: order_by_desc_distinct ranked_first_distinct)

lemma sorted_rev_take: "sorted (rev xs) \<Longrightarrow> sorted (rev (take n xs))"
proof -
  assume "sorted (rev xs)"
  then have "sorted (drop (length xs - n) (rev xs))" by (rule sorted_wrt_drop)
  then show ?thesis by (simp add: rev_take)
qed

lemma user_read_rows_sorted:
  "sorted (rev (map (desc_key \<circ> s_EVENT_TIME \<circ> fst) (user_read_rows db user_id n)))"
  unfolding user_read_rows_def take_map [symmetric]
  by (intro sorted_rev_take order_by_desc_sorted)

lemma rows_to_books_fields:
  "rows_to_books loads rows = Inr books \<Longrightarrow>
   map book_id books = map (b_PERMANENT_ID \<circ> snd) rows \<and>
   map event_time books = map (s_EVENT_TIME \<circ> fst) rows"
proof (induction rows arbitrary: books)
  case Nil
  then show ?case by simp
next
  case (Cons row rows)
  from Cons.prems obtain b bs where b: "row_to_book loads row = Inr b"
    and bs: "rows_to_books loads rows = Inr bs" and eq: "books = b # bs"
    by (auto split: sum.splits)
  from b have "book_id b = b_PERMANENT_ID (snd row)" "event_time b = s_EVENT_TIME (fst row)"
    by (auto simp: row_to_book_def split: sum.splits)
  with Cons.IH [OF bs] eq show ?case by simp
qed

lemma rows_to_books_total:
  "list_all (categories_ok loads) rows \<Longrightarrow> \<exists>books. rows_to_books loads rows = Inr books"
proof (induction rows)
  case Nil
  show ?case by simp
next
  case (Cons row rows)
  then obtain bs where bs: "rows_to_books loads rows = Inr bs" by auto
  from Cons.prems have "categories_ok loads row" by simp
  then obtain b where "row_to_book loads row = Inr b"
    by (auto simp: categories_ok_def row_to_book_def split: option.splits sum.splits)
  with bs show ?case by simp
qed

lemma rows_to_books_length:
  "rows_to_books loads rows = Inr books \<Longrightarrow> length books = length rows"
  using rows_to_books_fields [of loads rows books] by (metis length_map)



text \<open>
  C7. When the query runs and the categories of the rows parse,
  \<open>get_user_read_books\<close> with the limit 5 returns at most 5 records, no two of them
  with the same book identifier, the most recent event first (a record without event
  time before the others).
\<close>

theorem get_user_read_books_limit:
  assumes "execute_raises db = None"
    and "sql_safe user_id"
    and "list_all (categories_ok loads) (user_read_rows db user_id 5)"
  shows "\<exists>books. get_user_read_books db loads user_id 5 = Inr books \<and>
           length books \<le> 5 \<and>
           distinct (map book_id books) \<and>
           sorted (rev (map (desc_key \<circ> event_time) books))"
proof -
  from rows_to_books_total [OF assms(3)] obtain books
    where b: "rows_to_books loads (user_read_rows db user_id 5) = Inr books" ..
  from rows_to_books_fields [OF b]
  have ids: "map book_id books = map (b_PERMANENT_ID \<circ> snd) (user_read_rows db user_id 5)"
    and times: "map event_time books = map (s_EVENT_TIME \<circ> fst) (user_read_rows db user_id 5)"
    by simp_all
  have "length books = length (user_read_rows db user_id 5)"
    using b by (rule rows_to_books_length)
  then have l: "length books \<le> 5" by (simp add: user_read_rows_def)
  have d: "distinct (map book_id books)"
    unfolding ids by (rule user_read_rows_distinct)
  have "map (desc_key \<circ> event_time) books = map desc_key (map event_time books)" by simp
  also have "\<dots> = map (desc_key \<circ> s_EVENT_TIME \<circ> fst) (user_read_rows db user_id 5)"
    unfolding times by simp
  finally have o: "sorted (rev (map (desc_key \<circ> event_time) books))"
    using user_read_rows_sorted [of db user_id 5] by simp
  from assms(1) b have "get_user_read_books db loads user_id 5 = Inr books"
    by (simp add: get_user_read_books_def)
  with l d o show ?thesis by blast
qed

theorem get_user_read_books_limit_witness:
  "execute_raises sample_db = None \<and> sql_safe (py ''a'') \<and>
   list_all (categories_ok sample_loads) (user_read_rows sample_db (py ''a'') 5) \<and>
   map_sum id (map (\<lambda>b. (event_time b, book_id b)))
     (get_user_read_books sample_db sample_loads (py ''a'') 5) =
     Inr [(Some 990, Some (py ''1'')), (Some 980, Some (py ''2'')), (Some 960, Some (py ''3'')),
          (Some 950, Some (py ''4'')), (Some 940, Some (py ''5''))]"
proof -
  have e: "execute_raises sample_db = None" by (simp add: sample_db_def)
  have s: "sql_safe (py ''a'')" by (simp add: sql_safe_def py_def)
  have c: "list_all (categories_ok sample_loads) (user_read_rows sample_db (py ''a'') 5)"
    by code_simp
  have g: "map_sum id (map (\<lambda>b. (event_time b, book_id b)))
     (get_user_read_books sample_db sample_loads (py ''a'') 5) =
     Inr [(Some 990, Some (py ''1'')), (Some 980, Some (py ''2'')), (Some 960, Some (py ''3'')),
          (Some 950, Some (py ''4'')), (Some 940, Some (py ''5''))]"
    by code_simp
  from get_user_read_books_limit [OF e s c] e s c g show ?thesis by blast
qed

text \<open>
  C9. When the query runs, \<open>get_book_info\<close> returns the empty string if the query
  yields no rows, which is the case exactly when the catalog has no entry for the book
  identifier; and if the catalog has such an entry, it returns the \<open>DESCRIPTION\<close> of
  an entry for that identifier.
\<close>

theorem get_book_info_description:
  assumes "execute_raises db = None" and "sql_safe bid"
  shows "(book_info_rows db bid = [] \<longrightarrow> get_book_info db bid = Inr (Some [])) \<and>
         ((book_info_rows db bid = []) =
            (\<forall>r \<in> set (book_info_join db). i_PERMANENT_ID r \<noteq> Some bid)) \<and>
         ((\<exists>r \<in> set (book_info_join db). i_PERMANENT_ID r = Some bid) \<longrightarrow>
            (\<exists>r \<in> set (book_info_join db). i_PERMANENT_ID r = Some bid \<and>
               get_book_info db bid = Inr (i_DESCRIPTION r)))"
proof (intro conjI impI)
  show "get_book_info db bid = Inr (Some [])" if "book_info_rows db bid = []"
    using that assms(1) by (simp add: get_book_info_def)
  show "(book_info_rows db bid = []) =
          (\<forall>r \<in> set (book_info_join db). i_PERMANENT_ID r \<noteq> Some bid)"
    by (simp add: book_info_rows_def filter_empty_conv)
  show "\<exists>r \<in> set (book_info_join db). i_PERMANENT_ID r = Some bid \<and>
          get_book_info db bid = Inr (i_DESCRIPTION r)"
    if "\<exists>r \<in> set (book_info_join db). i_PERMANENT_ID r = Some bid"
  proof (cases "book_info_rows db bid")
    case Nil
    with that show ?thesis by (simp add: book_info_rows_def filter_empty_conv)
  next
    case (Cons row rows)
    then have "row \<in> set (book_info_rows db bid)" by simp
    then have "row \<in> set (book_info_join db)" "i_PERMANENT_ID row = Some bid"
      by (simp_all add: book_info_rows_def)
    moreover from Cons assms(1) have "get_book_info db bid = Inr (i_DESCRIPTION row)"
      by (simp add: get_book_info_def)
    ultimately show ?thesis by blast
  qed
qed

theorem get_book_info_description_witness:
  "execute_raises sample_db = None \<and> sql_safe (py ''1'') \<and> sql_safe (py ''2'') \<and>
   get_book_info sample_db (py ''1'') = Inr (Some (py ''A long story'')) \<and>
   book_info_rows sample_db (py ''2'') = [] \<and>
   get_book_info sample_db (py ''2'') = Inr (Some [])"
proof -
  have e: "execute_raises sample_db = None" by (simp add: sample_db_def)
  have s: "sql_safe (py ''1'')" "sql_safe (py ''2'')" by (simp_all add: sql_safe_def py_def)
  have n: "book_info_rows sample_db (py ''2'') = []"
    by (simp add: book_info_rows_def sample_db_def py_def)
  have j: "book_info_join sample_db =
      [\<lparr> i_PERMANENT_ID = Some (py ''1''), i_DESCRIPTION = Some (py ''A long story''),
            i_EXTENDED_BOOK_INFO = None \<rparr>]"
    by (simp add: sample_db_def)
  from get_book_info_description [OF e s(1)]
  have "get_book_info sample_db (py ''1'') = Inr (Some (py ''A long story''))"
    unfolding j by simp
  moreover from get_book_info_description [OF e s(2)] n
  have "get_book_info sample_db (py ''2'') = Inr (Some [])" by blast
  ultimately show ?thesis using e s n by blast
qed

section \<open>The catalog export\<close>

lemma hex_digit_value: "d < 16 \<Longrightarrow> hex_value (hex_digit d) = Some d"
  by (auto simp: hex_value_def hex_digit_def)

lemma hex_digit_printable: "d < 16 \<Longrightarrow> 32 \<le> hex_digit d \<and> hex_digit d \<le> 126"
  by (auto simp: hex_digit_def)

lemma u_escape_printable: "x \<in> set (u_escape n) \<Longrightarrow> 32 \<le> x \<and> x \<le> 126"
proof -
  have "n div 4096 mod 16 < 16" "n div 256 mod 16 < 16" "n div 16 mod 16 < 16" "n mod 16 < 16"
    by simp_all
  then have "32 \<le> hex_digit (n div 4096 mod 16) \<and> hex_digit (n div 4096 mod 16) \<le> 126"
    "32 \<le> hex_digit (n div 256 mod 16) \<and> hex_digit (n div 256 mod 16) \<le> 126"
    "32 \<le> hex_digit (n div 16 mod 16) \<and> hex_digit (n div 16 mod 16) \<le> 126"
    "32 \<le> hex_digit (n mod 16) \<and> hex_digit (n mod 16) \<le> 126"
    by (simp_all only: hex_digit_printable)
  moreover assume "x \<in> set (u_escape n)"
  ultimately show ?thesis by (auto simp: u_escape_def)
qed

lemma escape_char_printable: "x \<in> set (escape_char c) \<Longrightarrow> 32 \<le> x \<and> x \<le> 126"
  by (auto simp: escape_char_def split: if_splits dest: u_escape_printable)

lemma encode_string_printable: "x \<in> set (encode_string s) \<Longrightarrow> 32 \<le> x \<and> x \<le> 126"
  by (auto simp: encode_string_def dest: escape_char_printable)

lemma dumps_value_printable: "x \<in> set (dumps_value v) \<Longrightarrow> 32 \<le> x \<and> x \<le> 126"
  by (cases v) (auto simp: dumps_value_def py_def dest: encode_string_printable)

lemma dumps_row_printable: "x \<in> set (dumps_row row) \<Longrightarrow> 32 \<le> x \<and> x \<le> 126"
proof -
  assume "x \<in> set (dumps_row row)"
  then consider "x \<in> set (py ''{'' @ py '': '' @ py '', '' @ py ''}'')"
    | k where "x \<in> set (encode_string k)" | v where "x \<in> set (dumps_value v)"
    unfolding dumps_row_def set_append by blast
  then show ?thesis
  proof cases
    case 1
    then show ?thesis by (auto simp: py_def)
  next
    case 2
    then show ?thesis by (rule encode_string_printable)
  next
    case 3
    then show ?thesis by (rule dumps_value_printable)
  qed
qed

lemma split_lines_line:
  "10 \<notin> set l \<Longrightarrow> split_lines cur (l @ 10 # rest) = (cur @ l) # split_lines [] rest"
  by (induction l arbitrary: cur) simp_all

lemma file_lines_library_data: "file_lines (library_data rows) = map dumps_row rows"
proof -
  have "split_lines [] (library_data rows) = map dumps_row rows"
  proof (induction rows)
    case Nil
    show ?case by (simp add: library_data_def)
  next
    case (Cons row rows)
    have "10 \<notin> set (dumps_row row)"
      using dumps_row_printable [of 10 row] by auto
    then have "split_lines [] (dumps_row row @ 10 # library_data rows)
               = dumps_row row # split_lines [] (library_data rows)"
      using split_lines_line [of "dumps_row row" "[]" "library_data rows"] by simp
    with Cons show ?case by (simp add: library_data_def)
  qed
  then show ?thesis by (simp add: file_lines_def)
qed

lemma u_escape_body:
  "json_string_body (u_escape n @ tail) =
     prepend (4096 * (n div 4096 mod 16) + 256 * (n div 256 mod 16) + 16 * (n div 16 mod 16)
              + n mod 16) (json_string_body tail)"
proof -
  have "n div 4096 mod 16 < 16" "n div 256 mod 16 < 16" "n div 16 mod 16 < 16" "n mod 16 < 16"
    by simp_all
  then have h: "hex_value (hex_digit (n div 4096 mod 16)) = Some (n div 4096 mod 16)"
    "hex_value (hex_digit (n div 256 mod 16)) = Some (n div 256 mod 16)"
    "hex_value (hex_digit (n div 16 mod 16)) = Some (n div 16 mod 16)"
    "hex_value (hex_digit (n mod 16)) = Some (n mod 16)"
    by (simp_all only: hex_digit_value)
  show ?thesis
    by (simp add: u_escape_def hex4_value_def h)
qed

lemma escape_char_body:
  "json_string_body tail = Some (d, rest) \<Longrightarrow>
   \<exists>d'. json_string_body (escape_char c @ tail) = Some (d', rest)"
proof -
  assume t: "json_string_body tail = Some (d, rest)"
  consider (short) "c \<in> {34, 92, 10, 13, 9, 12, 8}"
    | (plain) "c \<notin> {34, 92, 10, 13, 9, 12, 8}" "32 \<le> c \<and> c \<le> 126"
    | (bmp) "c \<notin> {34, 92, 10, 13, 9, 12, 8}" "\<not> (32 \<le> c \<and> c \<le> 126)" "c < 65536"
    | (pair) "c \<notin> {34, 92, 10, 13, 9, 12, 8}" "\<not> (32 \<le> c \<and> c \<le> 126)" "\<not> c < 65536"
    by blast
  then show ?thesis
  proof cases
    case short
    with t show ?thesis
      by (auto simp: escape_char_def unescape_def prepend_def)
  next
    case plain
    with t show ?thesis
      by (auto simp: escape_char_def prepend_def)
  next
    case bmp
    then have "escape_char c = u_escape c" by (auto simp: escape_char_def)
    with t show ?thesis by (simp add: u_escape_body prepend_def)
  next
    case pair
    then have "escape_char c = u_escape (55296 + (c - 65536) div 1024 mod 1024) @
           u_escape (56320 + (c - 65536) mod 1024)" by (auto simp: escape_char_def)
    with t show ?thesis by (simp add: u_escape_body prepend_def)
  qed
qed

lemma escaped_body:
  "\<exists>d. json_string_body (concat (map escape_char s) @ 34 # rest) = Some (d, rest)"
proof (induction s)
  case Nil
  show ?case by simp
next
  case (Cons c s)
  then obtain d where "json_string_body (concat (map escape_char s) @ 34 # rest) = Some (d, rest)"
    by blast
  from escape_char_body [OF this, of c] show ?case by simp
qed

lemma encode_string_parses:
  "\<exists>d. json_string (encode_string s @ rest) = Some (d, rest)"
  using escaped_body [of s rest] by (simp add: json_string_def encode_string_def)

lemma dumps_value_parses: "json_scalar (dumps_value v @ rest) = Some rest"
proof (cases v)
  case None
  then show ?thesis by (simp add: dumps_value_def json_scalar_def py_def)
next
  case (Some s)
  from encode_string_parses [of s rest] obtain d
    where "json_string (encode_string s @ rest) = Some (d, rest)" ..
  moreover have "take 4 (encode_string s @ rest) \<noteq> py ''null''"
    by (simp add: encode_string_def py_def take_Cons')
  ultimately show ?thesis using Some by (simp add: dumps_value_def json_scalar_def)
qed

lemma dumps_value_no_ws: "skip_ws (dumps_value v @ rest) = dumps_value v @ rest"
  by (cases v) (simp_all add: dumps_value_def skip_ws_def is_ws_def py_def encode_string_def)

lemma plain_key_body:
  "plain_key k \<Longrightarrow> json_string_body (concat (map escape_char k) @ 34 # rest) = Some (k, rest)"
  by (induction k) (auto simp: plain_key_def escape_char_def prepend_def)

lemma plain_key_parses:
  "plain_key k \<Longrightarrow> json_string (encode_string k @ rest) = Some (k, rest)"
  by (simp add: json_string_def encode_string_def plain_key_body)

lemma member_last:
  assumes "plain_key k"
  shows "json_members (encode_string k @ py '': '' @ dumps_value v @ py ''}'' @ rest)
         = Some ([k], rest)"
proof -
  have 1: "json_string (encode_string k @ py '': '' @ dumps_value v @ py ''}'' @ rest)
           = Some (k, py '': '' @ dumps_value v @ py ''}'' @ rest)"
    using assms by (rule plain_key_parses)
  have 2: "skip_ws (py '': '' @ dumps_value v @ py ''}'' @ rest)
           = 58 # 32 # dumps_value v @ py ''}'' @ rest"
    by (simp add: skip_ws_def is_ws_def py_def)
  have 3: "skip_ws (32 # dumps_value v @ py ''}'' @ rest) = dumps_value v @ py ''}'' @ rest"
    using dumps_value_no_ws [of v "py ''}'' @ rest"] by (simp add: skip_ws_def is_ws_def)
  have 4: "json_scalar (dumps_value v @ py ''}'' @ rest) = Some (py ''}'' @ rest)"
    by (rule dumps_value_parses)
  have 5: "skip_ws (py ''}'' @ rest) = 125 # rest"
    by (simp add: skip_ws_def is_ws_def py_def)
  show ?thesis
    by (subst json_members.simps) (simp add: 1 2 3 4 5)
qed

lemma member_next:
  assumes "plain_key k" and "skip_ws next = next"
  shows "json_members (encode_string k @ py '': '' @ dumps_value v @ py '', '' @ next)
         = (case json_members next of
              None \<Rightarrow> None
            | Some (ks, rest) \<Rightarrow> Some (k # ks, rest))"
proof -
  have 1: "json_string (encode_string k @ py '': '' @ dumps_value v @ py '', '' @ next)
           = Some (k, py '': '' @ dumps_value v @ py '', '' @ next)"
    using assms(1) by (rule plain_key_parses)
  have 2: "skip_ws (py '': '' @ dumps_value v @ py '', '' @ next)
           = 58 # 32 # dumps_value v @ py '', '' @ next"
    by (simp add: skip_ws_def is_ws_def py_def)
  have 3: "skip_ws (32 # dumps_value v @ py '', '' @ next) = dumps_value v @ py '', '' @ next"
    using dumps_value_no_ws [of v "py '', '' @ next"] by (simp add: skip_ws_def is_ws_def)
  have 4: "json_scalar (dumps_value v @ py '', '' @ next) = Some (py '', '' @ next)"
    by (rule dumps_value_parses)
  have 5: "skip_ws (py '', '' @ next) = 44 # 32 # next"
    by (simp add: skip_ws_def is_ws_def py_def)
  have 6: "skip_ws (32 # next) = next"
    using assms(2) by (simp add: skip_ws_def is_ws_def)
  show ?thesis
    by (subst json_members.simps) (simp add: 1 2 3 4 5 6)
qed

lemma encode_string_no_ws: "skip_ws (encode_string k @ rest) = encode_string k @ rest"
  by (simp add: skip_ws_def is_ws_def encode_string_def)

lemma dumps_row_keys:
  "json_object_keys (dumps_row row) =
     Some [py ''book_id'', py ''book_title'', py ''book_Description'']"
proof -
  have k: "plain_key (py ''book_id'')" "plain_key (py ''book_title'')"
    "plain_key (py ''book_Description'')"
    by (simp_all add: plain_key_def py_def)
  let ?m3 = "encode_string (py ''book_Description'') @ py '': '' @
             dumps_value (p_DESCRIPTION row) @ py ''}'' @ []"
  let ?m2 = "encode_string (py ''book_title'') @ py '': '' @ dumps_value (p_TITLE row) @
             py '', '' @ ?m3"
  let ?m1 = "encode_string (py ''book_id'') @ py '': '' @ dumps_value (p_PERMANENT_ID row) @
             py '', '' @ ?m2"
  have 3: "json_members ?m3 = Some ([py ''book_Description''], [])"
    using k(3) by (rule member_last)
  have 2: "json_members ?m2 = Some ([py ''book_title'', py ''book_Description''], [])"
    using member_next [OF k(2) encode_string_no_ws, where v = "p_TITLE row"] 3
    by (simp del: append_assoc append.simps)
  have 1: "json_members ?m1 =
           Some ([py ''book_id'', py ''book_title'', py ''book_Description''], [])"
    using member_next [OF k(1) encode_string_no_ws, where v = "p_PERMANENT_ID row"] 2
    by (simp del: append_assoc append.simps)
  have row: "dumps_row row = 123 # ?m1"
    by (simp add: dumps_row_def py_def)
  obtain t where m1: "?m1 = 34 # t"
    by (simp add: encode_string_def)
  have s1: "skip_ws (123 # 34 # t) = 123 # 34 # t"
    by (simp add: skip_ws_def is_ws_def)
  have s2: "skip_ws (34 # t) = 34 # t"
    by (simp add: skip_ws_def is_ws_def)
  have s3: "skip_ws [] = []"
    by (simp add: skip_ws_def)
  from 1 m1 have m: "json_members (34 # t) =
           Some ([py ''book_id'', py ''book_title'', py ''book_Description''], [])"
    by simp
  have "json_object_keys (123 # 34 # t) =
          Some [py ''book_id'', py ''book_title'', py ''book_Description'']"
    unfolding json_object_keys_def s1 by (simp add: s2 s3 m)
  with row m1 show ?thesis by simp
qed

lemma sample_line_dumps:
  "dumps_row \<lparr> p_PERMANENT_ID = Some (py ''1''), p_TITLE = Some (py ''T1''),
               p_DESCRIPTION = Some (py ''A long story'') \<rparr> = sample_line"
  by (simp add: dumps_row_def dumps_value_def encode_string_def escape_char_def
      sample_line_def quoted_def py_def)

lemma sample_export: "fetch_all_production_books sample_db = Inr (sample_line @ [10])"
proof -
  have e: "execute_raises sample_db = None"
    by (simp add: sample_db_def)
  have p: "production_join sample_db =
      [\<lparr> p_PERMANENT_ID = Some (py ''1''), p_TITLE = Some (py ''T1''),
         p_DESCRIPTION = Some (py ''A long story'') \<rparr>]"
    by (simp add: sample_db_def)
  show ?thesis
    unfolding fetch_all_production_books_def production_rows_def e p
    by (simp add: library_data_def sample_line_dumps)
qed

lemma three_keys:
  "distinct [py ''book_id'', py ''book_title'', py ''book_Description'']"
  "py ''book_title'' \<notin> set [py ''book_id'', py ''title'', py ''description'']"
  by (simp_all add: py_def)

text \<open>
  C3, as stated, fails: the keys of a line are \<open>book_id\<close>, \<open>book_title\<close> and
  \<open>book_Description\<close>, not \<open>book_id\<close>, \<open>title\<close> and \<open>description\<close>.
\<close>

theorem fetch_all_production_books_keys_counterexample:
  "fetch_all_production_books sample_db = Inr (sample_line @ [10]) \<and>
   file_lines (sample_line @ [10]) = [sample_line] \<and>
   json_object_keys sample_line =
     Some [py ''book_id'', py ''book_title'', py ''book_Description''] \<and>
   \<not> json_object_with_keys sample_line [py ''book_id'', py ''title'', py ''description'']"
proof -
  let ?row = "\<lparr> p_PERMANENT_ID = Some (py ''1''), p_TITLE = Some (py ''T1''),
               p_DESCRIPTION = Some (py ''A long story'') \<rparr>"
  have l: "file_lines (sample_line @ [10]) = [sample_line]"
    using file_lines_library_data [of "[?row]"]
    by (simp add: library_data_def sample_line_dumps)
  have k: "json_object_keys sample_line =
     Some [py ''book_id'', py ''book_title'', py ''book_Description'']"
    using dumps_row_keys [of ?row] by (simp add: sample_line_dumps)
  have "py ''book_title'' \<in> set [py ''book_id'', py ''book_title'', py ''book_Description'']"
    by simp
  with three_keys(2)
  have "set [py ''book_id'', py ''book_title'', py ''book_Description''] \<noteq>
        set [py ''book_id'', py ''title'', py ''description'']"
    by metis
  with k have "\<not> json_object_with_keys sample_line
      [py ''book_id'', py ''title'', py ''description'']"
    by (simp add: json_object_with_keys_def)
  with sample_export l k show ?thesis by blast
qed

text \<open>
  C3, amended. For every result of the catalog query, the text that
  \<open>fetch_all_production_books\<close> writes has one line per distinct row, and every line
  is a JSON object with exactly the three keys \<open>book_id\<close>, \<open>book_title\<close> and
  \<open>book_Description\<close>.
\<close>

theorem fetch_all_production_books_keys:
  assumes "fetch_all_production_books db = Inr content"
  shows "length (file_lines content) = length (production_rows db) \<and>
         (\<forall>line \<in> set (file_lines content).
            json_object_with_keys line
              [py ''book_id'', py ''book_title'', py ''book_Description''])"
proof -
  from assms have c: "content = library_data (production_rows db)"
    by (auto simp: fetch_all_production_books_def split: option.splits)
  have l: "file_lines content = map dumps_row (production_rows db)"
    unfolding c by (rule file_lines_library_data)
  have "json_object_with_keys (dumps_row row)
          [py ''book_id'', py ''book_title'', py ''book_Description'']" for row
    using three_keys(1) by (simp add: json_object_with_keys_def dumps_row_keys)
  with l show ?thesis by auto
qed

theorem fetch_all_production_books_keys_witness:
  "fetch_all_production_books sample_db = Inr (sample_line @ [10]) \<and>
   file_lines (sample_line @ [10]) = [sample_line] \<and>
   json_object_with_keys sample_line
     [py ''book_id'', py ''book_title'', py ''book_Description'']"
proof -
  let ?row = "\<lparr> p_PERMANENT_ID = Some (py ''1''), p_TITLE = Some (py ''T1''),
               p_DESCRIPTION = Some (py ''A long story'') \<rparr>"
  have l: "file_lines (sample_line @ [10]) = [sample_line]"
    using file_lines_library_data [of "[?row]"]
    by (simp add: library_data_def sample_line_dumps)
  from fetch_all_production_books_keys [OF sample_export] l sample_export
  show ?thesis by simp
qed

end
